theory Spec2Isabelle
  imports Complex_Main
begin

section \<open>Errors\<close>

text \<open>
  The Python exceptions the modelled code can raise.  \<open>ValueError\<close> is raised by the
  source itself; \<open>UnboundLocalError\<close> by reading a local variable that was never bound;
  \<open>IndexError\<close> and \<open>RuntimeError\<close> are what the tensor library raises on a dimension
  out of range and on a shape mismatch.
\<close>

datatype error = ValueError | UnboundLocalError | IndexError | RuntimeError

section \<open>Construction of a residual layer (resnet6.py, \<open>_ResLayer.__init__\<close>)\<close>

text \<open>
  The fields of \<open>args\<close> that \<open>_ResLayer.__init__\<close> reads to choose the padding of its
  masked convolution.  All are Python integers; \<open>maintain_resolution\<close> is an integer used
  as a truth value (\<open>if resolution:\<close>, true when non-zero).
\<close>

record layer_args =
  conv_stride :: int
  source_dilation :: int
  target_dilation :: int
  maintain_resolution :: int

text \<open>
  The padding \<open>(padding_trg, padding_src)\<close> handed to the masked convolution, or the
  \<open>ValueError\<close> of the constructor.  Python's \<open>a * b // 2\<close> is \<open>(a * b) div 2\<close>, and
  \<open>//\<close> on integers rounds towards minus infinity, as \<open>div\<close> on \<open>int\<close> does.
\<close>

definition ResLayer_init :: "int \<Rightarrow> layer_args \<Rightarrow> error + (int \<times> int)" where
  "ResLayer_init kernel_size args =
     (let stride = conv_stride args;
          dilsrc = source_dilation args;
          diltrg = target_dilation args;
          resolution = maintain_resolution args
      in if resolution \<noteq> 0 then
           (if \<not> stride = 1 then Inl ValueError
            else
              (let padding_trg = diltrg * (kernel_size - 1) div 2;
                   padding_src = dilsrc * (kernel_size - 1) div 2
               in Inr (padding_trg, padding_src)))
         else Inr (diltrg * (kernel_size - 1) div 2, 0))"

text \<open>
  Modelled from the spec: the masked convolution (\<open>MaskedConvolution\<close>) is not among the
  source files; it is a two-dimensional convolution whose stride along the target axis is
  1.  Such a convolution, with \<open>padding\<close> rows added on both sides, dilation \<open>dil\<close> and
  kernel size \<open>k\<close>, turns \<open>len\<close> rows into \<open>len + 2 * padding - dil * (k - 1)\<close> rows.
\<close>

definition conv_out_len :: "int \<Rightarrow> int \<Rightarrow> int \<Rightarrow> int \<Rightarrow> int" where
  "conv_out_len len padding dil k = len + 2 * padding - dil * (k - 1)"


section \<open>Feature grids of one batch element\<close>

text \<open>
  The network acts on every batch element independently, so the grid of one batch element
  is modelled: a list over target positions of rows, a row being a list over source
  positions of feature vectors.  Numbers are real numbers; the rounding of floating-point
  arithmetic is not modelled.  The tensor library's shape errors inside the network are
  not modelled either: \<open>zip\<close> stops at the shorter list where the library would raise.
\<close>

type_synonym vec = "real list"
type_synonym row = "vec list"
type_synonym grid = "row list"

definition dot :: "vec \<Rightarrow> vec \<Rightarrow> real" where
  "dot w v = sum_list (map2 (*) w v)"

text \<open>\<open>nn.Linear\<close>: one weight row and one bias per output feature.\<close>

record linear =
  weight :: "real list list"
  bias :: vec

definition Linear_forward :: "linear \<Rightarrow> vec \<Rightarrow> vec" where
  "Linear_forward m v = map2 (\<lambda>w b. dot w v + b) (weight m) (bias m)"

text \<open>
  \<open>nn.Conv2d\<close> with kernel size 1, stride 1 and no bias: a linear map of every cell.  On a
  grid with no target row or no source position the library raises; the definition returns
  the empty grid, so it is the code's operation on non-empty grids only.
\<close>

definition Conv2d_1x1 :: "real list list \<Rightarrow> grid \<Rightarrow> grid" where
  "Conv2d_1x1 w x = map (map (\<lambda>v. map (\<lambda>wr. dot wr v) w)) x"

definition relu :: "vec \<Rightarrow> vec" where
  "relu v = map (max 0) v"

definition grid_add :: "grid \<Rightarrow> grid \<Rightarrow> grid" where
  "grid_add x y = map2 (map2 (map2 (+))) x y"

definition grid_scale :: "real \<Rightarrow> grid \<Rightarrow> grid" where
  "grid_scale s x = map (map (map ((*) s))) x"

text \<open>
  \<open>x.masked_fill(encoder_mask.unsqueeze(1).unsqueeze(1), 0)\<close>: the mask runs along the
  source axis and is broadcast over channels and target positions.  The definition is the
  library's operation for a mask that has the length of the rows; for any other length the
  library broadcasts or raises, and the definition says nothing about the code.
\<close>

definition masked_fill_src :: "bool list \<Rightarrow> grid \<Rightarrow> grid" where
  "masked_fill_src m x =
     map (\<lambda>r. map2 (\<lambda>b cell. if b then map (\<lambda>_. 0) cell else cell) m r) x"

text \<open>
  \<open>x.masked_fill(decoder_mask.unsqueeze(1).unsqueeze(-1), 0)\<close>: the mask runs along the
  target axis and is broadcast over channels and source positions.
\<close>

definition masked_fill_tgt :: "bool list \<Rightarrow> grid \<Rightarrow> grid" where
  "masked_fill_tgt m x =
     map2 (\<lambda>b r. if b then map (map (\<lambda>_. 0)) r else r) m x"

text \<open>
  \<open>F.dropout(x, p, training)\<close> and \<open>nn.Dropout\<close>: the identity outside training.  In
  training the library draws a random mask; \<open>sample\<close> stands for what that draw does to
  the grid in this call.
\<close>

definition dropout :: "('a \<Rightarrow> 'a) \<Rightarrow> bool \<Rightarrow> 'a \<Rightarrow> 'a" where
  "dropout sample training x = (if training then sample x else x)"

section \<open>The causal masked convolution and its cache\<close>

text \<open>
  Modelled from the spec: the class \<open>MaskedConvolution\<close> is imported from
  \<open>fairseq.modules\<close> and is not among the source files.  The spec describes it as a
  convolution whose value at a target position depends only on target positions up to
  that one, which in cached mode receives only the newest target rows, concatenates them
  to the held-over cached state (the last \<open>kernel_size - 1\<close> rows), convolves, writes the
  updated tail back as the new cache and returns only the new output rows; in non-cached
  mode it processes the full grid and does no caching.

  \<open>mc_kern\<close> is the convolution at one target position: the output row as a function of
  the window, the at most \<open>mc_kernel_size\<close> input rows ending at that position (rows
  before the first one are padding and contribute nothing).
\<close>

record masked_conv =
  mc_kernel_size :: nat
  mc_kern :: "row list \<Rightarrow> row"

definition window :: "nat \<Rightarrow> 'a list \<Rightarrow> nat \<Rightarrow> 'a list" where
  "window k x i = drop (Suc i - k) (take (Suc i) x)"

definition mconv_full :: "masked_conv \<Rightarrow> grid \<Rightarrow> grid" where
  "mconv_full c x = map (\<lambda>i. mc_kern c (window (mc_kernel_size c) x i)) [0..<length x]"

definition tail_rows :: "nat \<Rightarrow> 'a list \<Rightarrow> 'a list" where
  "tail_rows n x = drop (length x - n) x"

text \<open>Cached mode: the new cache and the new output rows.\<close>

definition mconv_cached :: "masked_conv \<Rightarrow> grid \<Rightarrow> grid \<Rightarrow> grid \<times> grid" where
  "mconv_cached c cache x =
     (let buf = cache @ x
      in (tail_rows (mc_kernel_size c - 1) buf, drop (length cache) (mconv_full c buf)))"

text \<open>
  The incremental state of a decoding session: one cache slot per layer, keyed by the
  layer's position in the stack; a missing slot is an empty cache.  \<open>None\<close> for the state
  is the non-cached mode.
\<close>

type_synonym inc_state = "nat \<rightharpoonup> grid"

definition cache_of :: "inc_state \<Rightarrow> nat \<Rightarrow> grid" where
  "cache_of st n = (case st n of None \<Rightarrow> [] | Some b \<Rightarrow> b)"

definition MaskedConvolution_forward ::
  "masked_conv \<Rightarrow> nat \<Rightarrow> grid \<Rightarrow> inc_state option \<Rightarrow> inc_state option \<times> grid" where
  "MaskedConvolution_forward c n x incremental_state =
     (case incremental_state of
        None \<Rightarrow> (None, mconv_full c x)
      | Some st \<Rightarrow>
          (let (cache, y) = mconv_cached c (cache_of st n) x
           in (Some (st(n \<mapsto> cache)), y)))"

section \<open>The residual layer (resnet6.py, \<open>_ResLayer.forward\<close>)\<close>

text \<open>
  The layer's sub-modules and attributes: the weight of the channel projection \<open>conv1\<close>,
  the masked convolution, the two linear maps of the feed-forward sublayer, the dropout
  rate and the module's \<open>training\<close> flag.  \<open>dropout_conv\<close> and \<open>dropout_ffn\<close> stand for the
  random draws of the two dropout calls in training.
\<close>

record res_layer =
  conv1 :: "real list list"
  mconv2 :: masked_conv
  fc1 :: linear
  fc2 :: linear
  drop_rate :: real
  training :: bool
  dropout_conv :: "grid \<Rightarrow> grid"
  dropout_ffn :: "grid \<Rightarrow> grid"

text \<open>\<open>self.scale = 1.\<close>\<close>

definition scale :: real where
  "scale = 1"

text \<open>
  The zeroing of padding positions after the masked convolution, done in training only
  and only for the masks that are supplied.
\<close>

definition mask_padding :: "bool \<Rightarrow> bool list option \<Rightarrow> bool list option \<Rightarrow> grid \<Rightarrow> grid" where
  "mask_padding train encoder_mask decoder_mask x =
     (if train then
        (let x = (case encoder_mask of None \<Rightarrow> x | Some m \<Rightarrow> masked_fill_src m x)
         in (case decoder_mask of None \<Rightarrow> x | Some m \<Rightarrow> masked_fill_tgt m x))
      else x)"

text \<open>
  The first lines of \<open>forward\<close>, up to the zeroing: the channel projection \<open>conv1\<close>, the
  masked convolution with the incremental state, and the padding masks.  \<open>n\<close> is the
  layer's position, the key of its cache.
\<close>

definition ResLayer_conv ::
  "res_layer \<Rightarrow> nat \<Rightarrow> grid \<Rightarrow> bool list option \<Rightarrow> bool list option \<Rightarrow>
     inc_state option \<Rightarrow> inc_state option \<times> grid" where
  "ResLayer_conv l n x encoder_mask decoder_mask incremental_state =
     (let x = Conv2d_1x1 (conv1 l) x;
          (st, x) = MaskedConvolution_forward (mconv2 l) n x incremental_state
      in (st, mask_padding (training l) encoder_mask decoder_mask x))"

text \<open>The rest of \<open>forward\<close>: dropout, residual addition, the feed-forward sublayer.\<close>

definition ResLayer_ffn :: "res_layer \<Rightarrow> grid \<Rightarrow> grid \<Rightarrow> grid" where
  "ResLayer_ffn l x residual =
     (let x = (if drop_rate l \<noteq> 0 then dropout (dropout_conv l) (training l) x else x);
          x = grid_scale scale (grid_add x residual);
          residual = x;
          x = map (map (Linear_forward (fc1 l))) x;
          x = map (map relu) x;
          x = map (map (Linear_forward (fc2 l))) x;
          x = (if drop_rate l \<noteq> 0 then dropout (dropout_ffn l) (training l) x else x)
      in grid_scale scale (grid_add x residual))"

definition ResLayer_forward ::
  "res_layer \<Rightarrow> nat \<Rightarrow> grid \<Rightarrow> bool list option \<Rightarrow> bool list option \<Rightarrow>
     inc_state option \<Rightarrow> inc_state option \<times> grid" where
  "ResLayer_forward l n x encoder_mask decoder_mask incremental_state =
     (let residual = x;
          (st, x) = ResLayer_conv l n x encoder_mask decoder_mask incremental_state
      in (st, ResLayer_ffn l x residual))"

section \<open>The stack of residual layers (resnet6.py, \<open>ResNet6.forward\<close>)\<close>

record resnet6 =
  reduce_channels :: "linear option"
  residual_blocks :: "res_layer list"

text \<open>The loop over the layers; \<open>n\<close> is the position of the first layer of the list.\<close>

fun blocks_forward ::
  "res_layer list \<Rightarrow> nat \<Rightarrow> grid \<Rightarrow> bool list option \<Rightarrow> bool list option \<Rightarrow>
     inc_state option \<Rightarrow> inc_state option \<times> grid" where
  "blocks_forward [] n x encoder_mask decoder_mask incremental_state = (incremental_state, x)"
| "blocks_forward (l # ls) n x encoder_mask decoder_mask incremental_state =
     (let (st, x) = ResLayer_forward l n x encoder_mask decoder_mask incremental_state
      in blocks_forward ls (Suc n) x encoder_mask decoder_mask st)"

definition ResNet6_forward ::
  "resnet6 \<Rightarrow> grid \<Rightarrow> bool list option \<Rightarrow> bool list option \<Rightarrow>
     inc_state option \<Rightarrow> inc_state option \<times> grid" where
  "ResNet6_forward net x encoder_mask decoder_mask incremental_state =
     (let x = (case reduce_channels net of
                 None \<Rightarrow> x
               | Some r \<Rightarrow> map (map (Linear_forward r)) x)
      in blocks_forward (residual_blocks net) 0 x encoder_mask decoder_mask incremental_state)"

section \<open>The decoder (attn2d_dynamic_ll.py, \<open>Attn2dDecoder\<close>)\<close>

text \<open>
  The output of the controller, \<open>controls, gamma, read_labels, write_labels\<close>.  The
  controller classes (\<open>ConvNetActions\<close>, \<open>LLControls\<close>, \<open>FBControls\<close>) are not among the
  source files; the decoder only passes their results on.
\<close>

record control_out =
  controls :: grid
  gamma :: "real list list"
  read_labels :: "real list list"
  write_labels :: "real list list"

text \<open>
  The decoder's sub-modules.  \<open>net\<close> is the residual stack: the decoder picks its
  network by name among classes of \<open>fairseq.modules\<close> that are not among the source
  files, and the residual stack that is, \<open>ResNet6\<close>, with the same call interface, stands
  for it.  \<open>aggregator\<close> (\<open>GridMAX\<close>), \<open>controller_feat\<close> and \<open>controller\<close> are modules that
  are not among the source files and are taken as they come.  The three dropout fields
  stand for the random draws of \<open>input_dropout\<close> and \<open>prediction_dropout\<close> in training.
\<close>

record decoder =
  net :: resnet6
  projection :: "linear option"
  prediction :: linear
  dec_training :: bool
  input_dropout :: "grid \<Rightarrow> grid"
  prediction_dropout :: "vec list \<Rightarrow> vec list"
  prediction_dropout_grid :: "grid \<Rightarrow> grid"
  aggregator :: "grid \<Rightarrow> grid"
  controller_feat :: "grid \<Rightarrow> grid"
  controller :: "grid \<Rightarrow> real list list \<Rightarrow> control_out"

text \<open>
  A target token as the decoder sees it: whether it is the padding symbol, and its
  embedding (scaled, with its positional embedding, after the embedding dropout), which
  the embedding modules supply.
\<close>

type_synonym token = "bool \<times> vec"

text \<open>Python's \<open>xs[:n]\<close> and \<open>xs[-1:]\<close>.\<close>

definition slice_to :: "int \<Rightarrow> 'a list \<Rightarrow> 'a list" where
  "slice_to n xs = (if n < 0 then take (length xs - nat (- n)) xs else take (nat n) xs)"

definition last_step :: "'a list \<Rightarrow> 'a list" where
  "last_step xs = drop (length xs - 1) xs"

text \<open>
  \<open>mask = tokens.eq(padding_idx)\<close>, replaced by \<open>None\<close> when no token is padding.  The
  source tests the whole batch; for one batch element a mask that marks nothing and no
  mask have the same effect.
\<close>

definition padding_mask :: "token list \<Rightarrow> bool list option" where
  "padding_mask toks = (if True \<in> set (map fst toks) then Some (map fst toks) else None)"

text \<open>
  The grid of one batch element: the cell at target position \<open>i\<close> and source position \<open>j\<close>
  is the source embedding at \<open>j\<close> followed by the target embedding at \<open>i\<close>.
\<close>

definition build_grid :: "vec list \<Rightarrow> vec list \<Rightarrow> grid" where
  "build_grid src_emb tgt_emb = map (\<lambda>t. map (\<lambda>s. s @ t) src_emb) tgt_emb"

text \<open>
  \<open>x.max(dim=2)\<close>: the channel-wise maximum over the source axis.  The library raises
  when the source axis is empty.
\<close>

definition row_max :: "row \<Rightarrow> vec" where
  "row_max r = foldl (map2 max) (hd r) (tl r)"

definition max_dim2 :: "grid \<Rightarrow> error + vec list" where
  "max_dim2 x = (if [] \<in> set x then Inl RuntimeError else Inr (map row_max x))"

definition project :: "linear option \<Rightarrow> vec \<Rightarrow> vec" where
  "project p v = (case p of None \<Rightarrow> v | Some m \<Rightarrow> Linear_forward m v)"

text \<open>
  \<open>Attn2dDecoder.forward\<close>.  \<open>src_emb\<close> is bound only when \<open>context_size\<close> is not \<open>None\<close>;
  its first use, \<open>src_emb.size(1)\<close>, raises \<open>UnboundLocalError\<close> otherwise.  The result is
  the incremental state after the call and the prediction of each target row.
\<close>

definition forward ::
  "decoder \<Rightarrow> token list \<Rightarrow> vec list \<Rightarrow> bool list option \<Rightarrow> inc_state option \<Rightarrow>
     int option \<Rightarrow> bool \<Rightarrow> error + (inc_state option \<times> vec list)" where
  "forward d prev_output_tokens encoder_states encoder_padding_mask incremental_state
       context_size cache_decoder =
     (case context_size of
        None \<Rightarrow> Inl UnboundLocalError
      | Some cs \<Rightarrow>
          (let src_emb = slice_to cs encoder_states;
               prev_output_tokens =
                 (if incremental_state \<noteq> None \<and> cache_decoder
                  then last_step prev_output_tokens else prev_output_tokens);
               decoder_mask = padding_mask prev_output_tokens;
               tgt_emb = map snd prev_output_tokens;
               x = build_grid src_emb tgt_emb;
               x = dropout (input_dropout d) (dec_training d) x;
               (st, x) = ResNet6_forward (net d) x encoder_padding_mask decoder_mask
                           (if cache_decoder then incremental_state else None);
               st = (if cache_decoder then st else incremental_state);
               x = (if incremental_state \<noteq> None then last_step x else x)
           in (case max_dim2 x of
                 Inl e \<Rightarrow> Inl e
               | Inr x \<Rightarrow>
                   (let x = map (project (projection d)) x;
                        x = dropout (prediction_dropout d) (dec_training d) x;
                        x = map (Linear_forward (prediction d)) x
                    in Inr (st, x)))))"

text \<open>\<open>utils.log_softmax(x, dim=-1)\<close> on one vector.\<close>

definition log_softmax :: "vec \<Rightarrow> vec" where
  "log_softmax v = map (\<lambda>a. a - ln (sum_list (map exp v))) v"

text \<open>
  The gathering of \<open>log p(ground truth)\<close>: the score of cell \<open>(i, j)\<close> is the entry of its
  vector at the index of the target token \<open>i\<close>.  With an empty source axis there is
  nothing to gather.  Otherwise the library raises when the target has another length
  than the grid or an index is outside the vocabulary.
\<close>

definition gather_scores :: "grid \<Rightarrow> nat list \<Rightarrow> nat \<Rightarrow> error + real list list" where
  "gather_scores x target src_length =
     (if src_length = 0 then Inr (map (\<lambda>r. []) x)
      else if length target = length x \<and>
         list_all (\<lambda>(r, t). list_all (\<lambda>cell. t < length cell) r) (zip x target)
      then Inr (map2 (\<lambda>r t. map (\<lambda>cell. cell ! t) r) x target)
      else Inl RuntimeError)"

text \<open>\<open>scores.masked_fill(encoder_mask.unsqueeze(1), -1000)\<close> and the same for the target.\<close>

definition forbid_padding ::
  "bool list option \<Rightarrow> bool list option \<Rightarrow> real list list \<Rightarrow> real list list" where
  "forbid_padding encoder_mask decoder_mask scores =
     (let scores = (case encoder_mask of
                      None \<Rightarrow> scores
                    | Some m \<Rightarrow> map (\<lambda>r. map2 (\<lambda>b a. if b then - 1000 else a) m r) scores)
      in (case decoder_mask of
            None \<Rightarrow> scores
          | Some m \<Rightarrow> map2 (\<lambda>b r. if b then map (\<lambda>_. - 1000) r else r) m scores))"

text \<open>
  \<open>Attn2dDecoder.forward_train\<close>: the per-cell log-probabilities, the observations and
  the controller's output.  With \<open>detach_controls\<close> the controller features are computed
  from a detached copy of the grid, which has the same values.
\<close>

definition forward_train ::
  "decoder \<Rightarrow> token list \<Rightarrow> vec list \<Rightarrow> bool list option \<Rightarrow> nat list \<Rightarrow>
     error + (grid \<times> grid \<times> control_out)" where
  "forward_train d prev_output_tokens encoder_states encoder_padding_mask target =
     (let src_emb = encoder_states;
          decoder_mask = padding_mask prev_output_tokens;
          tgt_emb = map snd prev_output_tokens;
          x = build_grid src_emb tgt_emb;
          x = dropout (input_dropout d) (dec_training d) x;
          observations = controller_feat d x;
          (st, x) = ResNet6_forward (net d) x encoder_padding_mask decoder_mask None;
          x = aggregator d x;
          x = map (map (project (projection d))) x;
          x = dropout (prediction_dropout_grid d) (dec_training d) x;
          x = map (map (Linear_forward (prediction d))) x;
          x = map (map log_softmax) x
      in (case gather_scores x target (length src_emb) of
            Inl e \<Rightarrow> Inl e
          | Inr scores \<Rightarrow>
              (let scores = forbid_padding encoder_padding_mask decoder_mask scores
               in Inr (x, observations, controller d observations scores))))"

text \<open>
  A decoding session: the decoder is called once per target token with the prefix decoded
  so far and the session's incremental state, which each call updates.  \<open>pre\<close> is the
  prefix already decoded.  The result is the list of the calls' outputs.
\<close>

fun decode_steps ::
  "decoder \<Rightarrow> token list \<Rightarrow> token list \<Rightarrow> vec list \<Rightarrow> bool list option \<Rightarrow>
     inc_state option \<Rightarrow> int option \<Rightarrow> error + vec list list" where
  "decode_steps d pre [] encoder_states encoder_padding_mask st context_size = Inr []"
| "decode_steps d pre (t # ts) encoder_states encoder_padding_mask st context_size =
     (case forward d (pre @ [t]) encoder_states encoder_padding_mask st context_size True of
        Inl e \<Rightarrow> Inl e
      | Inr (st', out) \<Rightarrow>
          (case decode_steps d (pre @ [t]) ts encoder_states encoder_padding_mask st'
                  context_size of
             Inl e \<Rightarrow> Inl e
           | Inr outs \<Rightarrow> Inr (out # outs)))"

section \<open>A small decoder for concrete runs\<close>

text \<open>
  A decoder with one residual layer over two channels (one source and one target
  channel), used to run the definitions on concrete inputs.  Its masked convolution has
  kernel size 2 and adds the rows of its window cell by cell; the projections are
  identity matrices, the dropout rate is 0, the vocabulary has two entries.
\<close>

definition sum_window :: "row list \<Rightarrow> row" where
  "sum_window w = foldl (map2 (map2 (+))) (last w) (butlast w)"

definition ex_linear :: linear where
  "ex_linear = \<lparr>weight = [[1, 0], [0, 1]], bias = [0, 0]\<rparr>"

definition ex_layer :: "bool \<Rightarrow> res_layer" where
  "ex_layer train =
     \<lparr>conv1 = [[1, 0], [0, 1]],
      mconv2 = \<lparr>mc_kernel_size = 2, mc_kern = sum_window\<rparr>,
      fc1 = ex_linear, fc2 = ex_linear, drop_rate = 0, training = train,
      dropout_conv = (\<lambda>x. x), dropout_ffn = (\<lambda>x. x)\<rparr>"

definition ex_decoder :: "bool \<Rightarrow> decoder" where
  "ex_decoder train =
     \<lparr>net = \<lparr>reduce_channels = None, residual_blocks = [ex_layer train]\<rparr>,
      projection = None, prediction = ex_linear, dec_training = train,
      input_dropout = (\<lambda>x. x), prediction_dropout = (\<lambda>x. x),
      prediction_dropout_grid = (\<lambda>x. x), aggregator = (\<lambda>x. x),
      controller_feat = (\<lambda>x. x),
      controller = (\<lambda>obs scores.
        \<lparr>controls = [], gamma = [], read_labels = [], write_labels = []\<rparr>)\<rparr>"

section \<open>Padding masks read by position\<close>

text \<open>
  Whether a padding mask is supplied and marks position \<open>i\<close>, and whether a supplied mask
  has the extent of the grid's axis it is broadcast along.
\<close>

definition is_padding :: "bool list option \<Rightarrow> nat \<Rightarrow> bool" where
  "is_padding pm i = (case pm of None \<Rightarrow> False | Some m \<Rightarrow> m ! i)"

definition fits_source :: "bool list option \<Rightarrow> grid \<Rightarrow> bool" where
  "fits_source pm x =
     (case pm of None \<Rightarrow> True | Some m \<Rightarrow> list_all (\<lambda>r. length r = length m) x)"

definition fits_target :: "bool list option \<Rightarrow> grid \<Rightarrow> bool" where
  "fits_target pm x = (case pm of None \<Rightarrow> True | Some m \<Rightarrow> length m = length x)"

section \<open>The reduction over the source axis (\<open>Attn2dDecoder.forward\<close>, last lines)\<close>

text \<open>
  The last lines of \<open>forward\<close>, from \<open>if incremental_state is not None\<close> to the
  prediction, as a function of the grid that the network returned: keep the last step,
  reduce with \<open>x.max(dim=2)\<close>, project, drop out, predict.  \<open>readout\<close> is what follows the
  reduction.
\<close>

definition readout :: "decoder \<Rightarrow> vec list \<Rightarrow> vec list" where
  "readout d x =
     (let x = map (project (projection d)) x;
          x = dropout (prediction_dropout d) (dec_training d) x
      in map (Linear_forward (prediction d)) x)"

definition forward_tail :: "decoder \<Rightarrow> inc_state option \<Rightarrow> grid \<Rightarrow> error + vec list" where
  "forward_tail d incremental_state x =
     (let x = (if incremental_state \<noteq> None then last_step x else x)
      in (case max_dim2 x of
            Inl e \<Rightarrow> Inl e
          | Inr x \<Rightarrow> Inr (readout d x)))"

text \<open>
  What a claim about the reduction speaks of.  \<open>has_channels\<close>: every cell of the grid
  has \<open>C\<close> channels, as every tensor has.  \<open>channel_max\<close>: the maximum of each of the \<open>C\<close>
  channels over the source positions of a row.  \<open>padding_dominated\<close>: the row has a
  position before \<open>k\<close>, and every value at a position from \<open>k\<close> on (the padding positions)
  is at most the value of the same channel at some position before \<open>k\<close>.
\<close>

definition has_channels :: "nat \<Rightarrow> grid \<Rightarrow> bool" where
  "has_channels C x = list_all (list_all (\<lambda>cell. length cell = C)) x"

definition channel_max :: "nat \<Rightarrow> row \<Rightarrow> vec" where
  "channel_max C r = map (\<lambda>c. Max ((\<lambda>cell. cell ! c) ` set r)) [0..<C]"

definition padding_dominated :: "nat \<Rightarrow> nat \<Rightarrow> row \<Rightarrow> bool" where
  "padding_dominated C k r =
     (take k r \<noteq> [] \<and>
      list_all
        (\<lambda>cell. list_all (\<lambda>c. list_ex (\<lambda>cell'. cell ! c \<le> cell' ! c) (take k r)) [0..<C])
        (drop k r))"

section \<open>Tensors and the grid builder (attn2d_dynamic_ll.py, \<open>_expand\<close>)\<close>

text \<open>
  Where shapes and the batch axis matter, a tensor is its shape and its entries by index.
  The tensors of a run live in a store, a list addressed by position; an operation that
  returns a new tensor object appends it to the store, and none of the operations below
  writes to a tensor that exists.
\<close>

record 'a tensor =
  shape :: "nat list"
  elem :: "nat list \<Rightarrow> 'a"

type_synonym 'a store = "'a tensor list"

definition alloc :: "'a store \<Rightarrow> 'a tensor \<Rightarrow> 'a store \<times> nat" where
  "alloc st t = (st @ [t], length st)"

text \<open>\<open>torch.zeros(shape)\<close>.\<close>

definition zeros :: "nat list \<Rightarrow> real tensor" where
  "zeros sh = \<lparr>shape = sh, elem = (\<lambda>_. 0)\<rparr>"

text \<open>\<open>tensor.size(d)\<close> raises \<open>IndexError\<close> when the tensor has no dimension \<open>d\<close>.\<close>

definition size_dim :: "'a tensor \<Rightarrow> nat \<Rightarrow> error + nat" where
  "size_dim t d = (if d < length (shape t) then Inr (shape t ! d) else Inl IndexError)"

text \<open>\<open>tensor.unsqueeze(d)\<close>: a new dimension of size 1 at position \<open>d\<close>.\<close>

definition unsqueeze :: "'a tensor \<Rightarrow> nat \<Rightarrow> error + 'a tensor" where
  "unsqueeze t d =
     (if d \<le> length (shape t)
      then Inr \<lparr>shape = take d (shape t) @ [1] @ drop d (shape t),
                elem = (\<lambda>idx. elem t (take d idx @ drop (Suc d) idx))\<rparr>
      else Inl IndexError)"

text \<open>
  \<open>tensor.expand(shape)\<close> where \<open>shape\<close> is \<open>reps\<close> at dimension \<open>d\<close> and \<open>-1\<close> (keep) at
  every other dimension.  A dimension of size 1 is repeated \<open>reps\<close> times, also for
  \<open>reps = 0\<close> (every index along it reads the one entry); a dimension that already has
  size \<open>reps\<close> stays; any other size is a shape error.
\<close>

definition expand :: "'a tensor \<Rightarrow> nat \<Rightarrow> nat \<Rightarrow> error + 'a tensor" where
  "expand t d reps =
     (if d < length (shape t) \<and> (shape t ! d = reps \<or> shape t ! d = 1)
      then Inr \<lparr>shape = (shape t)[d := reps],
                elem = (\<lambda>idx. elem t (if shape t ! d = 1 then idx[d := 0] else idx))\<rparr>
      else Inl RuntimeError)"

text \<open>The source's \<open>_expand(tensor, dim, reps)\<close>.\<close>

definition expand_reps :: "'a tensor \<Rightarrow> nat \<Rightarrow> nat \<Rightarrow> error + 'a tensor" where
  "expand_reps t d reps =
     (case unsqueeze t d of
        Inl e \<Rightarrow> Inl e
      | Inr u \<Rightarrow> expand u d reps)"

text \<open>
  \<open>torch.cat((a, b), dim=d)\<close>: the two tensors must have the same number of dimensions
  and the same size in every dimension but \<open>d\<close>; nothing is broadcast.
\<close>

definition cat :: "'a tensor \<Rightarrow> 'a tensor \<Rightarrow> nat \<Rightarrow> error + 'a tensor" where
  "cat a b d =
     (if length (shape a) = length (shape b) \<and> d < length (shape a) \<and>
         (shape a)[d := 0] = (shape b)[d := 0]
      then Inr \<lparr>shape = (shape a)[d := shape a ! d + shape b ! d],
                elem = (\<lambda>idx. if idx ! d < shape a ! d then elem a idx
                               else elem b (idx[d := idx ! d - shape a ! d]))\<rparr>
      else Inl RuntimeError)"

text \<open>
  The grid builder, the lines of \<open>forward_train\<close> from \<open>src_length = src_emb.size(1)\<close> to
  \<open>torch.cat\<close>: \<open>src\<close> and \<open>tgt\<close> are the addresses of the source and target embeddings;
  the result is the store after the call and the address of the grid.
\<close>

definition grid_builder :: "'a store \<Rightarrow> nat \<Rightarrow> nat \<Rightarrow> error + ('a store \<times> nat)" where
  "grid_builder st src tgt =
     (case size_dim (st ! src) 1 of
        Inl e \<Rightarrow> Inl e
      | Inr src_length \<Rightarrow>
     (case size_dim (st ! tgt) 1 of
        Inl e \<Rightarrow> Inl e
      | Inr tgt_length \<Rightarrow>
     (case expand_reps (st ! src) 1 tgt_length of
        Inl e \<Rightarrow> Inl e
      | Inr s \<Rightarrow>
     (let (st, src_emb) = alloc st s
      in (case expand_reps (st ! tgt) 2 src_length of
            Inl e \<Rightarrow> Inl e
          | Inr t \<Rightarrow>
         (let (st, tgt_emb) = alloc st t
          in (case cat (st ! src_emb) (st ! tgt_emb) 3 of
                Inl e \<Rightarrow> Inl e
              | Inr x \<Rightarrow> Inr (alloc st x))))))))"

text \<open>The shape of the tensor a call returned.\<close>

definition result_shape :: "error + ('a store \<times> nat) \<Rightarrow> error + nat list" where
  "result_shape r = (case r of Inl e \<Rightarrow> Inl e | Inr (st, g) \<Rightarrow> Inr (shape (st ! g)))"

text \<open>The entry at an index of the tensor a call returned.\<close>

definition result_elem :: "error + ('a store \<times> nat) \<Rightarrow> nat list \<Rightarrow> error + 'a" where
  "result_elem r idx = (case r of Inl e \<Rightarrow> Inl e | Inr (st, g) \<Rightarrow> Inr (elem (st ! g) idx))"

text \<open>
  Two embedding sequences for concrete runs, of shape \<open>(1, 2, 1)\<close>: the source
  embeddings 1 and 3, the target embeddings 1 and 2.
\<close>

definition ex_src :: "real tensor" where
  "ex_src = \<lparr>shape = [1, 2, 1], elem = (\<lambda>idx. if idx = [0, 0, 0] then 1 else 3)\<rparr>"

definition ex_tgt :: "real tensor" where
  "ex_tgt = \<lparr>shape = [1, 2, 1], elem = (\<lambda>idx. if idx = [0, 0, 0] then 1 else 2)\<rparr>"

section \<open>Evaluation mode and the state of a decoding session\<close>

text \<open>
  Evaluation mode (\<open>model.eval()\<close>): the \<open>training\<close> flag of the decoder and of every
  residual layer is off, so dropout is the identity and nothing is zeroed.
\<close>

definition eval_mode :: "decoder \<Rightarrow> bool" where
  "eval_mode d =
     (\<not> dec_training d \<and> list_all (\<lambda>l. \<not> training l) (residual_blocks (net d)))"

text \<open>
  What a residual layer computes from a full grid when nothing is cached, zeroed or
  dropped, and the same for a list of layers.
\<close>

definition layer_full :: "res_layer \<Rightarrow> grid \<Rightarrow> grid" where
  "layer_full l x = ResLayer_ffn l (mconv_full (mconv2 l) (Conv2d_1x1 (conv1 l) x)) x"

fun blocks_full :: "res_layer list \<Rightarrow> grid \<Rightarrow> grid" where
  "blocks_full [] x = x"
| "blocks_full (l # ls) x = blocks_full ls (layer_full l x)"

text \<open>
  The invariant of a decoding session that has decoded the rows \<open>h\<close> (as they enter the
  first layer of the list, which has position \<open>n\<close>): the cache of every layer holds the
  last \<open>kernel_size - 1\<close> rows that its masked convolution has received.
\<close>

fun cached :: "res_layer list \<Rightarrow> nat \<Rightarrow> grid \<Rightarrow> inc_state \<Rightarrow> bool" where
  "cached [] n h st = True"
| "cached (l # ls) n h st =
     (cache_of st n = tail_rows (mc_kernel_size (mconv2 l) - 1) (Conv2d_1x1 (conv1 l) h) \<and>
      cached ls (Suc n) (layer_full l h) st)"

text \<open>
  The grid as it enters the first residual layer, the features the stack computes from
  the target tokens in evaluation mode without a cache, and the prediction made from the
  aggregated features of one target position.
\<close>

definition net_input :: "resnet6 \<Rightarrow> grid \<Rightarrow> grid" where
  "net_input nt x =
     (case reduce_channels nt of None \<Rightarrow> x | Some r \<Rightarrow> map (map (Linear_forward r)) x)"

definition features :: "decoder \<Rightarrow> vec list \<Rightarrow> token list \<Rightarrow> grid" where
  "features d src_emb toks =
     blocks_full (residual_blocks (net d))
       (net_input (net d) (build_grid src_emb (map snd toks)))"

definition predict :: "decoder \<Rightarrow> vec \<Rightarrow> vec" where
  "predict d v = Linear_forward (prediction d) (project (projection d) v)"

section \<open>Properties of the constructor\<close>

text \<open>
  C9, as the code has it.  With \<open>maintain_resolution\<close> set and a stride other than 1 the
  constructor raises \<open>ValueError\<close>.  With \<open>maintain_resolution\<close> set and stride 1 it passes
  the padding \<open>dilation * (kernel_size - 1) // 2\<close> for each axis.  With
  \<open>maintain_resolution\<close> unset it never looks at the stride, and pads the target axis the
  same way and the source axis by 0.  Whenever the constructor succeeds and
  \<open>target_dilation * (kernel_size - 1)\<close> is even, the convolution's output has as many
  target rows as its input.
\<close>

theorem ResLayer_init_padding:
  "(maintain_resolution args \<noteq> 0 \<and> conv_stride args \<noteq> 1 \<longrightarrow>
      ResLayer_init k args = Inl ValueError) \<and>
   (maintain_resolution args \<noteq> 0 \<and> conv_stride args = 1 \<longrightarrow>
      ResLayer_init k args =
        Inr (target_dilation args * (k - 1) div 2, source_dilation args * (k - 1) div 2)) \<and>
   (maintain_resolution args = 0 \<longrightarrow>
      ResLayer_init k args = Inr (target_dilation args * (k - 1) div 2, 0)) \<and>
   (\<forall>pt ps. ResLayer_init k args = Inr (pt, ps) \<and> even (target_dilation args * (k - 1)) \<longrightarrow>
      conv_out_len len pt (target_dilation args) k = len)"
  by (auto simp: ResLayer_init_def conv_out_len_def Let_def split: if_splits)

theorem ResLayer_init_padding_witness:
  "ResLayer_init 3 \<lparr>conv_stride = 2, source_dilation = 1, target_dilation = 1,
       maintain_resolution = 1\<rparr> = Inl ValueError \<and>
   ResLayer_init 3 \<lparr>conv_stride = 1, source_dilation = 2, target_dilation = 1,
       maintain_resolution = 1\<rparr> = Inr (1, 2) \<and>
   ResLayer_init 3 \<lparr>conv_stride = 2, source_dilation = 2, target_dilation = 1,
       maintain_resolution = 0\<rparr> = Inr (1, 0) \<and>
   conv_out_len 7 1 1 3 = 7"
  using ResLayer_init_padding [of "\<lparr>conv_stride = 2, source_dilation = 1, target_dilation = 1,
       maintain_resolution = 1\<rparr>" 3 7]
    ResLayer_init_padding [of "\<lparr>conv_stride = 1, source_dilation = 2, target_dilation = 1,
       maintain_resolution = 1\<rparr>" 3 7]
    ResLayer_init_padding [of "\<lparr>conv_stride = 2, source_dilation = 2, target_dilation = 1,
       maintain_resolution = 0\<rparr>" 3 7]
  by simp

text \<open>
  C9 as stated fails: with stride 1 and \<open>maintain_resolution\<close> unset the source axis is
  padded by 0, not by \<open>source_dilation * (kernel_size - 1) / 2 = 1\<close>.
\<close>

theorem ResLayer_init_stride1_counterexample:
  "ResLayer_init 3 \<lparr>conv_stride = 1, source_dilation = 1, target_dilation = 1,
       maintain_resolution = 0\<rparr> = Inr (1, 0) \<and>
   (1::int) * (3 - 1) div 2 \<noteq> 0"
  by (simp add: ResLayer_init_def)

section \<open>Evaluating the small decoder\<close>

lemmas ex_defs = forward_def ex_decoder_def ex_layer_def ex_linear_def sum_window_def
  slice_to_def last_step_def padding_mask_def build_grid_def dropout_def ResNet6_forward_def
  ResLayer_forward_def ResLayer_conv_def ResLayer_ffn_def Conv2d_1x1_def
  MaskedConvolution_forward_def mconv_full_def mconv_cached_def window_def tail_rows_def
  cache_of_def mask_padding_def masked_fill_src_def masked_fill_tgt_def grid_add_def
  grid_scale_def scale_def relu_def Linear_forward_def dot_def max_dim2_def row_max_def
  project_def

section \<open>The decoder without a context size\<close>

text \<open>
  C10.  Whatever the other arguments, a call of the decoder's \<open>forward\<close> with
  \<open>context_size\<close> left as \<open>None\<close> fails and produces no output: the source-embedding
  slice is bound only when \<open>context_size\<close> is not \<open>None\<close>, and reading it raises
  \<open>UnboundLocalError\<close>.
\<close>

theorem forward_needs_context_size:
  "forward d prev_output_tokens encoder_states encoder_padding_mask incremental_state None
     cache_decoder = Inl UnboundLocalError"
  by (simp add: forward_def)

section \<open>Zeroing of padding positions after the masked convolution\<close>

lemma length_masked_fill_src: "length (masked_fill_src m x) = length x"
  by (simp add: masked_fill_src_def)

lemma nth_masked_fill_src:
  assumes "i < length x" and "length (x ! i) = length m"
  shows "length (masked_fill_src m x ! i) = length m"
    and "j < length m \<Longrightarrow> masked_fill_src m x ! i ! j =
           (if m ! j then replicate (length (x ! i ! j)) 0 else x ! i ! j)"
  using assms by (simp_all add: masked_fill_src_def map_replicate_const)

lemma length_masked_fill_tgt:
  "length m = length x \<Longrightarrow> length (masked_fill_tgt m x) = length x"
  by (simp add: masked_fill_tgt_def)

lemma nth_masked_fill_tgt:
  assumes "length m = length x" and "i < length x"
  shows "masked_fill_tgt m x ! i = (if m ! i then map (map (\<lambda>_. 0)) (x ! i) else x ! i)"
  using assms by (simp add: masked_fill_tgt_def)

lemma mask_padding_training:
  assumes src: "fits_source encoder_mask c"
    and tgt: "fits_target decoder_mask c"
    and i: "i < length c" and j: "j < length (c ! i)"
  shows "mask_padding True encoder_mask decoder_mask c ! i ! j =
           (if is_padding encoder_mask j \<or> is_padding decoder_mask i
            then replicate (length (c ! i ! j)) 0 else c ! i ! j)"
proof -
  let ?y = "case encoder_mask of None \<Rightarrow> c | Some m \<Rightarrow> masked_fill_src m c"
  have y: "length ?y = length c" "length (?y ! i) = length (c ! i)"
    "?y ! i ! j = (if is_padding encoder_mask j then replicate (length (c ! i ! j)) 0
                   else c ! i ! j)"
    using src i j
    by (auto simp: is_padding_def fits_source_def length_masked_fill_src nth_masked_fill_src
        list_all_length split: option.splits)
  have m: "mask_padding True encoder_mask decoder_mask c =
    (case decoder_mask of None \<Rightarrow> ?y | Some m \<Rightarrow> masked_fill_tgt m ?y)"
    by (simp add: mask_padding_def Let_def)
  show ?thesis
    using y tgt i j
    by (auto simp: m nth_masked_fill_tgt is_padding_def fits_target_def map_replicate_const
        split: option.splits)
qed

lemma ResLayer_conv_eq:
  "ResLayer_conv l n x encoder_mask decoder_mask st =
     (fst (MaskedConvolution_forward (mconv2 l) n (Conv2d_1x1 (conv1 l) x) st),
      mask_padding (training l) encoder_mask decoder_mask
        (snd (MaskedConvolution_forward (mconv2 l) n (Conv2d_1x1 (conv1 l) x) st)))"
  by (simp add: ResLayer_conv_def Let_def split: prod.splits)

text \<open>
  C6.  Let \<open>c\<close> be the output of a residual layer's masked convolution and \<open>y\<close> what the
  layer goes on with.  In training, \<open>y\<close> holds the zero vector at every cell whose source
  position is marked by the supplied source padding mask or whose target position is
  marked by the supplied target padding mask.  Outside training (incremental inference)
  nothing is zeroed: \<open>y\<close> is \<open>c\<close>.
\<close>

theorem ResLayer_conv_zeroes_padding:
  assumes conv: "MaskedConvolution_forward (mconv2 l) n (Conv2d_1x1 (conv1 l) x) st = (st', c)"
    and res: "ResLayer_conv l n x encoder_mask decoder_mask st = (st'', y)"
    and src: "fits_source encoder_mask c"
    and tgt: "fits_target decoder_mask c"
  shows "(training l \<longrightarrow>
            (\<forall>i j. i < length c \<and> j < length (c ! i) \<and>
                (is_padding encoder_mask j \<or> is_padding decoder_mask i) \<longrightarrow>
                y ! i ! j = replicate (length (c ! i ! j)) 0)) \<and>
         (\<not> training l \<longrightarrow> y = c)"
proof -
  have y: "y = mask_padding (training l) encoder_mask decoder_mask c"
    using conv res by (simp add: ResLayer_conv_eq)
  have "y ! i ! j = replicate (length (c ! i ! j)) 0"
    if "training l" "i < length c" "j < length (c ! i)"
      "is_padding encoder_mask j \<or> is_padding decoder_mask i" for i j
    using that mask_padding_training [OF src tgt that(2,3)] by (simp add: y)
  moreover have "y = c" if "\<not> training l"
    using that by (simp add: y mask_padding_def)
  ultimately show ?thesis by blast
qed

theorem ResLayer_conv_zeroes_padding_witness:
  "MaskedConvolution_forward (mconv2 (ex_layer True)) 0
       (Conv2d_1x1 (conv1 (ex_layer True)) [[[1, 1], [3, 1]], [[1, 2], [3, 2]]]) None =
     (None, [[[1, 1], [3, 1]], [[2, 3], [6, 3]]]) \<and>
   ResLayer_conv (ex_layer True) 0 [[[1, 1], [3, 1]], [[1, 2], [3, 2]]]
       (Some [False, True]) (Some [True, False]) None =
     (None, [[[0, 0], [0, 0]], [[2, 3], [0, 0]]]) \<and>
   fits_source (Some [False, True]) [[[1, 1], [3, 1]], [[2, 3], [6, 3]]] \<and>
   fits_target (Some [True, False]) [[[1, 1], [3, 1]], [[2, 3], [6, 3]]] \<and>
   training (ex_layer True) \<and>
   is_padding (Some [False, True]) 1 \<and>
   [[[0, 0], [0, 0]], [[2, 3], [0, 0]]] ! 1 ! 1 = replicate (length [6, 3 :: real]) (0 :: real) \<and>
   MaskedConvolution_forward (mconv2 (ex_layer False)) 0
       (Conv2d_1x1 (conv1 (ex_layer False)) [[[1, 1], [3, 1]], [[1, 2], [3, 2]]]) None =
     (None, [[[1, 1], [3, 1]], [[2, 3], [6, 3]]]) \<and>
   ResLayer_conv (ex_layer False) 0 [[[1, 1], [3, 1]], [[1, 2], [3, 2]]]
       (Some [False, True]) (Some [True, False]) None =
     (None, [[[1, 1], [3, 1]], [[2, 3], [6, 3]]]) \<and>
   \<not> training (ex_layer False)"
proof -
  have c1: "MaskedConvolution_forward (mconv2 (ex_layer True)) 0
       (Conv2d_1x1 (conv1 (ex_layer True)) [[[1, 1], [3, 1]], [[1, 2], [3, 2]]]) None =
     (None, [[[1, 1], [3, 1]], [[2, 3], [6, 3]]])"
    by (simp add: ex_defs)
  have r1: "ResLayer_conv (ex_layer True) 0 [[[1, 1], [3, 1]], [[1, 2], [3, 2]]]
       (Some [False, True]) (Some [True, False]) None =
     (None, [[[0, 0], [0, 0]], [[2, 3], [0, 0]]])"
    by (simp add: ex_defs Let_def)
  have c2: "MaskedConvolution_forward (mconv2 (ex_layer False)) 0
       (Conv2d_1x1 (conv1 (ex_layer False)) [[[1, 1], [3, 1]], [[1, 2], [3, 2]]]) None =
     (None, [[[1, 1], [3, 1]], [[2, 3], [6, 3]]])"
    by (simp add: ex_defs)
  have r2: "ResLayer_conv (ex_layer False) 0 [[[1, 1], [3, 1]], [[1, 2], [3, 2]]]
       (Some [False, True]) (Some [True, False]) None =
     (None, [[[1, 1], [3, 1]], [[2, 3], [6, 3]]])"
    by (simp add: ex_defs Let_def)
  have fs: "fits_source (Some [False, True]) [[[1, 1], [3, 1]], [[2, 3], [6, 3 :: real]]]"
    and ft: "fits_target (Some [True, False]) [[[1, 1], [3, 1]], [[2, 3], [6, 3 :: real]]]"
    by (simp_all add: fits_source_def fits_target_def)
  have tr: "training (ex_layer True)" "\<not> training (ex_layer False)"
    by (simp_all add: ex_layer_def)
  have pad: "is_padding (Some [False, True]) 1"
    by (simp add: is_padding_def)
  have "[[[0, 0], [0, 0]], [[2, 3], [0, 0]]] ! 1 ! 1 =
          replicate (length ([[[1, 1], [3, 1]], [[2, 3], [6, 3 :: real]]] ! 1 ! 1)) (0 :: real)"
    using ResLayer_conv_zeroes_padding [OF c1 r1 fs ft] tr(1) pad by simp
  then show ?thesis using c1 r1 c2 r2 fs ft tr pad by simp
qed

section \<open>Log-normalisation of the predictions\<close>

lemma sum_exp_nonneg: "0 \<le> sum_list (map exp (v::real list))"
  by (induction v) auto

lemma sum_exp_pos: "v \<noteq> [] \<Longrightarrow> 0 < sum_list (map exp (v::real list))"
  using sum_exp_nonneg by (cases v) (auto intro: add_pos_nonneg)

lemma sum_list_map_times: "sum_list (map (\<lambda>a. f a * (c::real)) v) = sum_list (map f v) * c"
  by (induction v) (auto simp: algebra_simps)

lemma log_softmax_normalised:
  assumes "v \<noteq> []"
  shows "sum_list (map exp (log_softmax v)) = 1"
proof -
  let ?S = "sum_list (map exp v)"
  have pos: "0 < ?S" using assms by (rule sum_exp_pos)
  have "sum_list (map exp (log_softmax v)) = sum_list (map (\<lambda>a. exp a * inverse ?S) v)"
    using pos by (simp add: log_softmax_def comp_def exp_diff divide_inverse)
  also have "\<dots> = ?S * inverse ?S" by (rule sum_list_map_times)
  also have "\<dots> = 1" using pos by simp
  finally show ?thesis .
qed

lemma Linear_forward_nonempty:
  "weight m \<noteq> [] \<Longrightarrow> bias m \<noteq> [] \<Longrightarrow> Linear_forward m v \<noteq> []"
  by (cases "weight m"; cases "bias m") (auto simp: Linear_forward_def)

lemma forward_train_cells:
  assumes "forward_train d prev_output_tokens encoder_states encoder_padding_mask target =
             Inr (x, observations, co)"
  shows "\<exists>y. x = map (map (\<lambda>u. log_softmax (Linear_forward (prediction d) u))) y"
  using assms
  by (auto simp: forward_train_def Let_def comp_def split: prod.splits sum.splits)

text \<open>
  C4, as the code has it.  The training call \<open>forward_train\<close> returns log-normalised
  predictions: when the vocabulary is not empty, the exponentials of the vector of every
  cell (target position, source position) sum to 1.
\<close>

theorem forward_train_log_normalised:
  assumes "forward_train d prev_output_tokens encoder_states encoder_padding_mask target =
             Inr (x, observations, co)"
    and "weight (prediction d) \<noteq> []" and "bias (prediction d) \<noteq> []"
    and "r \<in> set x" and "cell \<in> set r"
  shows "sum_list (map exp cell) = 1"
proof -
  from forward_train_cells [OF assms(1)] obtain y
    where x: "x = map (map (\<lambda>u. log_softmax (Linear_forward (prediction d) u))) y" ..
  with assms(4,5) obtain u where "cell = log_softmax (Linear_forward (prediction d) u)"
    by auto
  moreover have "Linear_forward (prediction d) u \<noteq> []"
    using assms(2,3) by (rule Linear_forward_nonempty)
  ultimately show ?thesis by (simp add: log_softmax_normalised)
qed

theorem forward_train_log_normalised_witness:
  "forward_train (ex_decoder False) [(False, [1])] [[1], [3]] None [0] =
     Inr ([[[4 - ln (2 * exp 4), 4 - ln (2 * exp 4)],
            [12 - ln (exp 12 + exp 4), 4 - ln (exp 12 + exp 4)]]],
          [[[1, 1], [3, 1]]],
          \<lparr>controls = [], gamma = [], read_labels = [], write_labels = []\<rparr>) \<and>
   weight (prediction (ex_decoder False)) \<noteq> [] \<and>
   bias (prediction (ex_decoder False)) \<noteq> [] \<and>
   sum_list (map exp [12 - ln (exp 12 + exp 4), 4 - ln (exp 12 + exp 4 :: real)]) = 1"
proof -
  have run: "forward_train (ex_decoder False) [(False, [1])] [[1], [3]] None [0] =
     Inr ([[[4 - ln (2 * exp 4), 4 - ln (2 * exp 4)],
            [12 - ln (exp 12 + exp 4), 4 - ln (exp 12 + exp 4)]]],
          [[[1, 1], [3, 1]]],
          \<lparr>controls = [], gamma = [], read_labels = [], write_labels = []\<rparr>)"
    by (simp add: ex_defs forward_train_def gather_scores_def forbid_padding_def
        log_softmax_def Let_def)
  have w: "weight (prediction (ex_decoder False)) \<noteq> []"
    and b: "bias (prediction (ex_decoder False)) \<noteq> []"
    by (simp_all add: ex_decoder_def ex_linear_def)
  have r: "[[4 - ln (2 * exp 4), 4 - ln (2 * exp 4)],
            [12 - ln (exp 12 + exp 4), 4 - ln (exp 12 + exp 4 :: real)]]
           \<in> set [[[4 - ln (2 * exp 4), 4 - ln (2 * exp 4)],
                    [12 - ln (exp 12 + exp 4), 4 - ln (exp 12 + exp 4)]]]"
    by simp
  have cell: "[12 - ln (exp 12 + exp 4), 4 - ln (exp 12 + exp 4 :: real)]
           \<in> set [[4 - ln (2 * exp 4), 4 - ln (2 * exp 4)],
                   [12 - ln (exp 12 + exp 4), 4 - ln (exp 12 + exp 4)]]"
    by simp
  have "sum_list (map exp [12 - ln (exp 12 + exp 4), 4 - ln (exp 12 + exp 4 :: real)]) = 1"
    by (rule forward_train_log_normalised [OF run w b r cell])
  with run w b show ?thesis by blast
qed

text \<open>
  C4 as stated fails for incremental inference: \<open>forward\<close> returns the output of the
  prediction layer as it is, without log-normalisation.  With the small decoder the
  single step returns \<open>[12, 4]\<close>, whose exponentials do not sum to 1.
\<close>

theorem forward_not_normalised_counterexample:
  "forward (ex_decoder False) [(False, [1])] [[1], [3]] None (Some Map.empty) (Some 2) True =
     Inr (Some [0 \<mapsto> [[[1, 1], [3, 1]]]], [[12, 4]]) \<and>
   sum_list (map exp [12, 4 :: real]) \<noteq> 1"
proof -
  have "forward (ex_decoder False) [(False, [1])] [[1], [3]] None (Some Map.empty) (Some 2)
          True = Inr (Some [0 \<mapsto> [[[1, 1], [3, 1]]]], [[12, 4]])"
    by (simp add: ex_defs Let_def)
  moreover have "1 < exp 12 + exp (4 :: real)"
    using exp_ge_add_one_self [of "12 :: real"] exp_gt_zero [of "4 :: real"] by linarith
  then have "sum_list (map exp [12, 4 :: real]) \<noteq> 1"
    by simp
  ultimately show ?thesis by blast
qed

section \<open>The maximum over the source axis and padding positions\<close>

text \<open>
  \<open>forward\<close> is \<open>forward_tail\<close> applied to the grid that the network returns.
\<close>

lemma forward_forward_tail:
  "forward d toks enc m st (Some c) cd =
     (let toks = (if st \<noteq> None \<and> cd then last_step toks else toks);
          (s, x) = ResNet6_forward (net d)
                     (dropout (input_dropout d) (dec_training d)
                        (build_grid (slice_to c enc) (map snd toks)))
                     m (padding_mask toks) (if cd then st else None)
      in (case forward_tail d st x of
            Inl e \<Rightarrow> Inl e
          | Inr out \<Rightarrow> Inr (if cd then s else st, out)))"
  by (simp add: forward_def forward_tail_def readout_def Let_def split: prod.splits sum.splits)

lemma foldl_max_channel:
  assumes "length a = C" and "\<forall>cell\<in>set r. length cell = C"
  shows "foldl (map2 max) a r =
           map (\<lambda>c. Max (insert (a ! c) ((\<lambda>cell. cell ! c) ` set r))) [0..<C]"
  using assms
proof (induction r arbitrary: a)
  case Nil
  have "map ((!) a) [0..<length a] = a"
    by (rule map_nth)
  with Nil show ?case by simp
next
  case (Cons b r)
  have len: "length (map2 max a b) = C"
    using Cons.prems by simp
  have "Max (insert (map2 max a b ! c) ((\<lambda>cell. cell ! c) ` set r)) =
          Max (insert (a ! c) ((\<lambda>cell. cell ! c) ` set (b # r)))" if "c < C" for c
  proof -
    have "map2 max a b ! c = max (a ! c) (b ! c)"
      using that Cons.prems by simp
    then show ?thesis
      by (cases "set r = {}") (simp_all add: max.assoc)
  qed
  then show ?case
    using Cons.IH [OF len] Cons.prems(2) by simp
qed

lemma row_max_channel_max:
  assumes "r \<noteq> []" and "\<forall>cell\<in>set r. length cell = C"
  shows "row_max r = channel_max C r"
proof -
  from assms(1) obtain a r' where r: "r = a # r'"
    by (cases r) auto
  show ?thesis
    using foldl_max_channel [of a C r'] assms(2)
    by (simp add: r row_max_def channel_max_def)
qed

lemma channel_max_dominated:
  assumes "padding_dominated C k r"
  shows "channel_max C r = channel_max C (take k r)"
proof -
  have ne: "take k r \<noteq> []"
    using assms by (simp add: padding_dominated_def)
  have "Max ((\<lambda>cell. cell ! c) ` set r) = Max ((\<lambda>cell. cell ! c) ` set (take k r))"
    if c: "c < C" for c
  proof (rule antisym)
    show "Max ((\<lambda>cell. cell ! c) ` set (take k r)) \<le> Max ((\<lambda>cell. cell ! c) ` set r)"
      using ne by (intro Max_mono image_mono set_take_subset) auto
    show "Max ((\<lambda>cell. cell ! c) ` set r) \<le> Max ((\<lambda>cell. cell ! c) ` set (take k r))"
    proof (rule Max.boundedI)
      show "finite ((\<lambda>cell. cell ! c) ` set r)" by simp
      show "(\<lambda>cell. cell ! c) ` set r \<noteq> {}"
        using ne by auto
      fix v assume "v \<in> (\<lambda>cell. cell ! c) ` set r"
      then obtain cell where cell: "cell \<in> set r" and v: "v = cell ! c"
        by auto
      from cell have "cell \<in> set (take k r) \<or> cell \<in> set (drop k r)"
        by (metis Un_iff append_take_drop_id set_append)
      then show "v \<le> Max ((\<lambda>cell. cell ! c) ` set (take k r))"
      proof
        assume "cell \<in> set (take k r)"
        then show ?thesis by (simp add: v)
      next
        assume "cell \<in> set (drop k r)"
        with assms c have "\<exists>cell'\<in>set (take k r). cell ! c \<le> cell' ! c"
          by (simp add: padding_dominated_def list_all_iff list_ex_iff)
        then obtain cell' where mem: "cell' \<in> set (take k r)"
          and le: "cell ! c \<le> cell' ! c"
          by blast
        have "cell' ! c \<le> Max ((\<lambda>cell. cell ! c) ` set (take k r))"
          using mem by simp
        with le have "cell ! c \<le> Max ((\<lambda>cell. cell ! c) ` set (take k r))"
          by (rule order_trans)
        then show ?thesis by (simp only: v)
      qed
    qed
  qed
  then show ?thesis
    by (simp add: channel_max_def)
qed

lemma max_dim2_dominated:
  assumes "list_all (list_all (\<lambda>cell. length cell = C)) x"
    and "list_all (padding_dominated C k) x"
  shows "max_dim2 x = Inr (map (\<lambda>r. channel_max C (take k r)) x)"
proof -
  have "[] \<notin> set x"
    using assms(2) by (auto simp: list_all_iff padding_dominated_def)
  moreover have "row_max r = channel_max C (take k r)" if "r \<in> set x" for r
  proof -
    have "r \<noteq> []"
      using that \<open>[] \<notin> set x\<close> by auto
    moreover have "\<forall>cell\<in>set r. length cell = C"
      using that assms(1) by (auto simp: list_all_iff)
    ultimately have "row_max r = channel_max C r"
      by (rule row_max_channel_max)
    also have "\<dots> = channel_max C (take k r)"
      using that assms(2) by (intro channel_max_dominated) (simp add: list_all_iff)
    finally show ?thesis .
  qed
  ultimately show ?thesis
    by (simp add: max_dim2_def)
qed

text \<open>
  C3, as the code has it.  In every mode (training or not, with or without an incremental
  state) \<open>forward\<close> reduces the grid it got from the network with \<open>x.max(dim=2)\<close> and no
  mask.  Let the source positions from \<open>k\<close> on be padding and let two grids with at least
  one target row agree at the positions before \<open>k\<close>.  If in both grids every value at a
  padding position is at most the value of the same channel at some non-padding position
  of its row, then the reduction is, at every target position, the maximum of each
  channel over the non-padding positions; it is the same for both grids, and so is what
  \<open>forward\<close> computes from it.
\<close>

theorem forward_tail_padding_dominated:
  assumes "x \<noteq> []"
    and "has_channels C x"
    and "has_channels C x'"
    and "map (take k) x' = map (take k) x"
    and "list_all (padding_dominated C k) x"
    and "list_all (padding_dominated C k) x'"
  shows "max_dim2 x = Inr (map (\<lambda>r. channel_max C (take k r)) x) \<and>
         max_dim2 x' = max_dim2 x \<and>
         forward_tail d incremental_state x' = forward_tail d incremental_state x"
proof -
  let ?sel = "\<lambda>x :: grid. if incremental_state \<noteq> None then last_step x else x"
  have sub: "list_all P (?sel y)" if "list_all P y" for P and y :: grid
    using that by (auto simp: last_step_def list_all_iff dest: in_set_dropD)
  have h: "map (\<lambda>r. channel_max C (take k r)) y = map (channel_max C) (map (take k) y)"
    for y :: grid
    by simp
  have m: "max_dim2 x = Inr (map (\<lambda>r. channel_max C (take k r)) x)"
    using assms(2) [unfolded has_channels_def] assms(5) by (rule max_dim2_dominated)
  have m': "max_dim2 x' = Inr (map (\<lambda>r. channel_max C (take k r)) x')"
    using assms(3) [unfolded has_channels_def] assms(6) by (rule max_dim2_dominated)
  have mm: "max_dim2 x' = max_dim2 x"
    by (simp only: m m' h assms(4))
  have a: "max_dim2 (?sel x) = Inr (map (\<lambda>r. channel_max C (take k r)) (?sel x))"
    using sub [OF assms(2) [unfolded has_channels_def]] sub [OF assms(5)]
    by (rule max_dim2_dominated)
  have b: "max_dim2 (?sel x') = Inr (map (\<lambda>r. channel_max C (take k r)) (?sel x'))"
    using sub [OF assms(3) [unfolded has_channels_def]] sub [OF assms(6)]
    by (rule max_dim2_dominated)
  have len: "length x' = length x"
    using assms(4) by (metis length_map)
  have dr: "map (take k) (drop n x') = map (take k) (drop n x)" for n
    using assms(4) by (metis drop_map)
  have eq: "map (take k) (?sel x') = map (take k) (?sel x)"
    using assms(4) dr [of "length x - 1"] by (simp add: last_step_def len)
  have c: "map (\<lambda>r. channel_max C (take k r)) (?sel x') =
           map (\<lambda>r. channel_max C (take k r)) (?sel x)"
    by (simp only: h eq)
  have "forward_tail d incremental_state x' = forward_tail d incremental_state x"
    unfolding forward_tail_def Let_def a b c by simp
  with m mm show ?thesis by blast
qed

theorem forward_tail_padding_dominated_witness:
  "[[[12, 4], [2, 2 :: real]]] \<noteq> [] \<and>
   has_channels 2 [[[12, 4], [2, 2]]] \<and> has_channels 2 [[[12, 4], [4, 2]]] \<and>
   map (take 1) [[[12, 4], [4, 2 :: real]]] = map (take 1) [[[12, 4], [2, 2]]] \<and>
   list_all (padding_dominated 2 1) [[[12, 4], [2, 2]]] \<and>
   list_all (padding_dominated 2 1) [[[12, 4], [4, 2]]] \<and>
   max_dim2 [[[12, 4], [2, 2]]] = Inr [[12, 4]] \<and>
   max_dim2 [[[12, 4], [4, 2]]] = max_dim2 [[[12, 4], [2, 2]]] \<and>
   forward_tail (ex_decoder True) None [[[12, 4], [4, 2]]] =
     forward_tail (ex_decoder True) None [[[12, 4], [2, 2]]] \<and>
   forward (ex_decoder True) [(False, [1])] [[3], [1]] (Some [False, True]) None (Some 2) True =
     Inr (None, [[12, 4]]) \<and>
   forward (ex_decoder True) [(False, [1])] [[3], [2]] (Some [False, True]) None (Some 2) True =
     Inr (None, [[12, 4]])"
proof -
  have n: "[[[12, 4], [2, 2 :: real]]] \<noteq> []"
    by simp
  have a: "has_channels 2 [[[12, 4], [2, 2]]]" and b: "has_channels 2 [[[12, 4], [4, 2]]]"
    by (simp_all add: has_channels_def)
  have c: "map (take 1) [[[12, 4], [4, 2 :: real]]] = map (take 1) [[[12, 4], [2, 2]]]"
    by simp
  have d: "list_all (padding_dominated 2 1) [[[12, 4], [2, 2]]]"
    and e: "list_all (padding_dominated 2 1) [[[12, 4], [4, 2]]]"
    by (simp_all add: padding_dominated_def numeral_2_eq_2)
  have r: "map (\<lambda>r. channel_max 2 (take 1 r)) [[[12, 4], [2, 2 :: real]]] = [[12, 4]]"
    by (simp add: channel_max_def numeral_2_eq_2)
  have f: "forward (ex_decoder True) [(False, [1])] [[3], [1]] (Some [False, True]) None
      (Some 2) True = Inr (None, [[12, 4]])"
    by (simp add: ex_defs Let_def)
  have g: "forward (ex_decoder True) [(False, [1])] [[3], [2]] (Some [False, True]) None
      (Some 2) True = Inr (None, [[12, 4]])"
    by (simp add: ex_defs Let_def)
  note t = forward_tail_padding_dominated [OF n a b c d e, of "ex_decoder True" None]
  have p1: "max_dim2 [[[12, 4], [2, 2]]] = Inr [[12, 4]]"
    using t unfolding r by blast
  have p2: "max_dim2 [[[12, 4], [4, 2]]] = max_dim2 [[[12, 4], [2, 2]]]"
    using t by blast
  have p3: "forward_tail (ex_decoder True) None [[[12, 4], [4, 2]]] =
     forward_tail (ex_decoder True) None [[[12, 4], [2, 2]]]"
    using t by blast
  show ?thesis
    using n a b c d e p1 p2 p3 f g by blast
qed

text \<open>
  C3 as stated fails: nothing keeps a padding position out of the maximum.  In training
  the zeroing of the convolution output comes before the residual addition, which brings
  the padding position's input back; outside training nothing is zeroed.  With source
  position 1 marked as padding, changing the source embedding there from 3 to 7 changes
  the decoder's output in training (from \<open>[6, 4]\<close> to \<open>[14, 4]\<close>) and in incremental
  inference (from \<open>[12, 4]\<close> to \<open>[28, 4]\<close>); the features at the non-padding position,
  \<open>[4, 4]\<close>, are the same in both runs.
\<close>

theorem max_dim2_padding_counterexample:
  "forward (ex_decoder True) [(False, [1])] [[1], [3]] (Some [False, True]) None (Some 2) True =
     Inr (None, [[6, 4]]) \<and>
   forward (ex_decoder True) [(False, [1])] [[1], [7]] (Some [False, True]) None (Some 2) True =
     Inr (None, [[14, 4]]) \<and>
   forward (ex_decoder False) [(False, [1])] [[1], [3]] (Some [False, True]) (Some Map.empty)
       (Some 2) True = Inr (Some [0 \<mapsto> [[[1, 1], [3, 1]]]], [[12, 4]]) \<and>
   forward (ex_decoder False) [(False, [1])] [[1], [7]] (Some [False, True]) (Some Map.empty)
       (Some 2) True = Inr (Some [0 \<mapsto> [[[1, 1], [7, 1]]]], [[28, 4]]) \<and>
   max_dim2 [[[4, 4], [6, 2]]] = Inr [[6, 4]] \<and>
   max_dim2 [[[4, 4], [14, 2]]] = Inr [[14, 4]]"
  by (simp add: ex_defs Let_def)

section \<open>The grid builder\<close>

lemma expand_reps_src:
  assumes "shape s = [B, Ts, Cs]"
  shows "\<exists>u. expand_reps s 1 Tt = Inr u \<and> shape u = [B, Tt, Ts, Cs] \<and>
    (\<forall>b i j c. elem u [b, i, j, c] = elem s [b, j, c])"
  using assms by (simp add: expand_reps_def unsqueeze_def expand_def)

lemma expand_reps_tgt:
  assumes "shape t = [B, Tt, Ct]"
  shows "\<exists>u. expand_reps t 2 Ts = Inr u \<and> shape u = [B, Tt, Ts, Ct] \<and>
    (\<forall>b i j c. elem u [b, i, j, c] = elem t [b, i, c])"
  using assms
  by (simp add: expand_reps_def unsqueeze_def expand_def numeral_2_eq_2 numeral_3_eq_3)

lemma cat_grid:
  assumes "shape a = [B, Tt, Ts, Cs]" and "shape b = [B', Tt, Ts, Ct]"
  shows "B \<noteq> B' \<Longrightarrow> cat a b 3 = Inl RuntimeError"
    and "B = B' \<Longrightarrow> \<exists>x. cat a b 3 = Inr x \<and> shape x = [B, Tt, Ts, Cs + Ct] \<and>
           (\<forall>b' i j c. elem x [b', i, j, c] =
              (if c < Cs then elem a [b', i, j, c] else elem b [b', i, j, c - Cs]))"
  using assms by (auto simp: cat_def numeral_3_eq_3)

lemma grid_builder_run:
  assumes src: "src < length st" and tgt: "tgt < length st"
    and ss: "shape (st ! src) = [B, Ts, Cs]" and st: "shape (st ! tgt) = [B', Tt, Ct]"
  shows "B \<noteq> B' \<Longrightarrow> grid_builder st src tgt = Inl RuntimeError"
    and "B = B' \<Longrightarrow>
          \<exists>u1 u2 x. grid_builder st src tgt = Inr (st @ [u1, u2, x], length st + 2) \<and>
            shape x = [B, Tt, Ts, Cs + Ct] \<and>
            (\<forall>b i j c. elem x [b, i, j, c] =
               (if c < Cs then elem (st ! src) [b, j, c] else elem (st ! tgt) [b, i, c - Cs]))"
proof -
  from ss obtain u1 where u1: "expand_reps (st ! src) 1 Tt = Inr u1"
    "shape u1 = [B, Tt, Ts, Cs]" "\<And>b i j c. elem u1 [b, i, j, c] = elem (st ! src) [b, j, c]"
    using expand_reps_src by blast
  from st obtain u2 where u2: "expand_reps (st ! tgt) 2 Ts = Inr u2"
    "shape u2 = [B', Tt, Ts, Ct]" "\<And>b i j c. elem u2 [b, i, j, c] = elem (st ! tgt) [b, i, c]"
    using expand_reps_tgt by blast
  have run: "grid_builder st src tgt =
       (case cat u1 u2 3 of Inl e \<Rightarrow> Inl e | Inr x \<Rightarrow> Inr (st @ [u1, u2, x], length st + 2))"
    using src tgt ss st u1(1) u2(1)
    by (simp add: grid_builder_def size_dim_def alloc_def nth_append Let_def split: sum.splits)
  show "grid_builder st src tgt = Inl RuntimeError" if "B \<noteq> B'"
    using cat_grid(1) [OF u1(2) u2(2) that] by (simp add: run)
  show "\<exists>u1 u2 x. grid_builder st src tgt = Inr (st @ [u1, u2, x], length st + 2) \<and>
            shape x = [B, Tt, Ts, Cs + Ct] \<and>
            (\<forall>b i j c. elem x [b, i, j, c] =
               (if c < Cs then elem (st ! src) [b, j, c] else elem (st ! tgt) [b, i, c - Cs]))"
    if "B = B'"
  proof -
    from cat_grid(2) [OF u1(2) u2(2) that] obtain x where x: "cat u1 u2 3 = Inr x"
      "shape x = [B, Tt, Ts, Cs + Ct]"
      "\<And>b' i j c. elem x [b', i, j, c] =
              (if c < Cs then elem u1 [b', i, j, c] else elem u2 [b', i, j, c - Cs])"
      by blast
    show ?thesis
      using x(2)
      by (intro exI [of _ u1] exI [of _ u2] exI [of _ x]) (simp add: run x(1) x(3) u1(3) u2(3))
  qed
qed

text \<open>
  C7.  For a source embedding sequence of shape \<open>(B, Ts, Csrc)\<close> and a target embedding
  sequence of shape \<open>(B, Tt, Ctgt)\<close> the grid builder returns a tensor of shape
  \<open>(B, Tt, Ts, Csrc + Ctgt)\<close> whose entry at \<open>(b, i, j)\<close> is the source embedding at
  \<open>(b, j)\<close> followed by the target embedding at \<open>(b, i)\<close>; every tensor that existed before
  the call, the two inputs among them, is unchanged after it.
\<close>

theorem grid_builder_grid:
  assumes "src < length st" and "tgt < length st"
    and "shape (st ! src) = [B, Ts, Csrc]" and "shape (st ! tgt) = [B, Tt, Ctgt]"
  shows "\<exists>st' g. grid_builder st src tgt = Inr (st', g) \<and> g < length st' \<and>
           shape (st' ! g) = [B, Tt, Ts, Csrc + Ctgt] \<and>
           (\<forall>b i j c. b < B \<and> i < Tt \<and> j < Ts \<and> c < Csrc + Ctgt \<longrightarrow>
              elem (st' ! g) [b, i, j, c] =
                (if c < Csrc then elem (st ! src) [b, j, c]
                 else elem (st ! tgt) [b, i, c - Csrc])) \<and>
           take (length st) st' = st \<and> st' ! src = st ! src \<and> st' ! tgt = st ! tgt"
proof -
  from grid_builder_run(2) [OF assms refl] obtain u1 u2 x
    where "grid_builder st src tgt = Inr (st @ [u1, u2, x], length st + 2)"
      and "shape x = [B, Tt, Ts, Csrc + Ctgt]"
      and "\<forall>b i j c. elem x [b, i, j, c] =
             (if c < Csrc then elem (st ! src) [b, j, c] else elem (st ! tgt) [b, i, c - Csrc])"
    by blast
  then show ?thesis
    using assms(1,2)
    by (intro exI [of _ "st @ [u1, u2, x]"] exI [of _ "length st + 2"]) (simp add: nth_append)
qed

theorem grid_builder_grid_witness:
  "(0 :: nat) < length [ex_src, ex_tgt] \<and> (1 :: nat) < length [ex_src, ex_tgt] \<and>
   shape ([ex_src, ex_tgt] ! 0) = [1, 2, 1] \<and> shape ([ex_src, ex_tgt] ! 1) = [1, 2, 1] \<and>
   result_shape (grid_builder [ex_src, ex_tgt] 0 1) = Inr [1, 2, 2, 2] \<and>
   result_elem (grid_builder [ex_src, ex_tgt] 0 1) [0, 1, 1, 0] = Inr 3 \<and>
   result_elem (grid_builder [ex_src, ex_tgt] 0 1) [0, 1, 1, 1] = Inr 2"
proof -
  have a: "(0 :: nat) < length [ex_src, ex_tgt]" and b: "(1 :: nat) < length [ex_src, ex_tgt]"
    and c: "shape ([ex_src, ex_tgt] ! 0) = [1, 2, 1]"
    and d: "shape ([ex_src, ex_tgt] ! 1) = [1, 2, 1]"
    by (simp_all add: ex_src_def ex_tgt_def)
  from grid_builder_grid [OF a b c d] obtain st' g
    where run: "grid_builder [ex_src, ex_tgt] 0 1 = Inr (st', g)"
      and sh: "shape (st' ! g) = [1, 2, 2, 1 + 1]"
      and el: "\<forall>b i j c. b < 1 \<and> i < 2 \<and> j < 2 \<and> c < 1 + 1 \<longrightarrow>
              elem (st' ! g) [b, i, j, c] =
                (if c < 1 then elem ([ex_src, ex_tgt] ! 0) [b, j, c]
                 else elem ([ex_src, ex_tgt] ! 1) [b, i, c - 1])"
    by blast
  have e: "elem (st' ! g) [0, 1, 1, 0] = 3" "elem (st' ! g) [0, 1, 1, 1] = 2"
    using el [rule_format, of 0 1 1 0] el [rule_format, of 0 1 1 1]
    by (simp_all add: ex_src_def ex_tgt_def)
  have r: "result_shape (grid_builder [ex_src, ex_tgt] 0 1) = Inr (shape (st' ! g))"
    "\<And>idx. result_elem (grid_builder [ex_src, ex_tgt] 0 1) idx = Inr (elem (st' ! g) idx)"
    unfolding run result_shape_def result_elem_def by simp_all
  show ?thesis
    unfolding r using a b c d sh e by simp
qed

text \<open>
  C8, as the code has it.  When the batch sizes differ the grid builder fails with the
  shape error of the concatenation; nothing is broadcast across the batch axis.  When they
  are equal it returns a grid of shape \<open>(B, Tt, Ts, Csrc + Ctgt)\<close>, whatever the lengths
  \<open>Ts\<close> and \<open>Tt\<close> are, zero included.
\<close>

theorem grid_builder_batch:
  assumes "src < length st" and "tgt < length st"
    and "shape (st ! src) = [B, Ts, Csrc]" and "shape (st ! tgt) = [B', Tt, Ctgt]"
  shows "(B \<noteq> B' \<longrightarrow> grid_builder st src tgt = Inl RuntimeError) \<and>
         (B = B' \<longrightarrow>
            result_shape (grid_builder st src tgt) = Inr [B, Tt, Ts, Csrc + Ctgt])"
proof -
  have "result_shape (grid_builder st src tgt) = Inr [B, Tt, Ts, Csrc + Ctgt]" if "B = B'"
    using grid_builder_run(2) [OF assms that]
    by (auto simp: result_shape_def nth_append)
  then show ?thesis
    using grid_builder_run(1) [OF assms] by blast
qed

theorem grid_builder_batch_witness:
  "(0 :: nat) < length [zeros [1, 2, 1], zeros [3, 2, 1]] \<and>
   (1 :: nat) < length [zeros [1, 2, 1], zeros [3, 2, 1]] \<and>
   shape ([zeros [1, 2, 1], zeros [3, 2, 1]] ! 0) = [1, 2, 1] \<and>
   shape ([zeros [1, 2, 1], zeros [3, 2, 1]] ! 1) = [3, 2, 1] \<and>
   grid_builder [zeros [1, 2, 1], zeros [3, 2, 1]] 0 1 = Inl RuntimeError \<and>
   shape ([ex_src, ex_tgt] ! 0) = [1, 2, 1] \<and> shape ([ex_src, ex_tgt] ! 1) = [1, 2, 1] \<and>
   result_shape (grid_builder [ex_src, ex_tgt] 0 1) = Inr [1, 2, 2, 2]"
proof -
  have a: "(0 :: nat) < length [zeros [1, 2, 1], zeros [3, 2, 1]]"
    and b: "(1 :: nat) < length [zeros [1, 2, 1], zeros [3, 2, 1]]"
    and c: "shape ([zeros [1, 2, 1], zeros [3, 2, 1]] ! 0) = [1, 2, 1]"
    and d: "shape ([zeros [1, 2, 1], zeros [3, 2, 1]] ! 1) = [3, 2, 1]"
    by (simp_all add: zeros_def)
  have a': "(0 :: nat) < length [ex_src, ex_tgt]" and b': "(1 :: nat) < length [ex_src, ex_tgt]"
    and c': "shape ([ex_src, ex_tgt] ! 0) = [1, 2, 1]"
    and d': "shape ([ex_src, ex_tgt] ! 1) = [1, 2, 1]"
    by (simp_all add: ex_src_def ex_tgt_def)
  show ?thesis
    using grid_builder_batch [OF a b c d] grid_builder_batch [OF a' b' c' d'] a b c d c' d'
    by simp
qed

text \<open>
  C8 as stated fails: an input sequence of length zero is no error for the grid builder.
  With a source of shape \<open>(1, 0, 1)\<close>, or a target of shape \<open>(1, 0, 1)\<close>, it returns an
  empty grid.
\<close>

theorem grid_builder_zero_length_counterexample:
  "result_shape (grid_builder [zeros [1, 0, 1], zeros [1, 1, 1]] 0 1) = Inr [1, 1, 0, 2] \<and>
   result_shape (grid_builder [zeros [1, 2, 1], zeros [1, 0, 1]] 0 1) = Inr [1, 0, 2, 2]"
  by (simp add: result_shape_def grid_builder_def size_dim_def expand_reps_def unsqueeze_def
      expand_def cat_def alloc_def zeros_def Let_def)

section \<open>The masked convolution: causality and the cache\<close>

lemma window_take: "i < n \<Longrightarrow> window k (take n x) i = window k x i"
  by (simp add: window_def min_def)

lemma window_drop:
  assumes "m = 0 \<or> m + k \<le> Suc i" and "m \<le> i"
  shows "window k (drop m x) (i - m) = window k x i"
proof -
  have "take (Suc (i - m)) (drop m x) = drop m (take (Suc i) x)"
    using assms(2) by (simp add: drop_take Suc_diff_le)
  moreover have "Suc (i - m) - k + m = Suc i - k"
    using assms by auto
  ultimately show ?thesis
    unfolding window_def by (simp only: drop_drop)
qed

lemma length_mconv_full: "length (mconv_full c x) = length x"
  by (simp add: mconv_full_def)

lemma nth_mconv_full:
  "i < length x \<Longrightarrow> mconv_full c x ! i = mc_kern c (window (mc_kernel_size c) x i)"
  by (simp add: mconv_full_def)

lemma mconv_full_take: "take n (mconv_full c x) = mconv_full c (take n x)"
  by (rule nth_equalityI) (simp_all add: length_mconv_full nth_mconv_full window_take)

lemma tail_rows_append:
  "tail_rows n (tail_rows n h @ x) = tail_rows n (h @ x)"
  by (cases "length h \<le> n") (auto simp: tail_rows_def add.commute)

lemma mconv_cached_tail:
  "mconv_cached c (tail_rows (mc_kernel_size c - 1) h) x =
     (tail_rows (mc_kernel_size c - 1) (h @ x), drop (length h) (mconv_full c (h @ x)))"
proof -
  let ?k = "mc_kernel_size c"
  let ?m = "length h - (?k - 1)"
  have buf: "tail_rows (?k - 1) h @ x = drop ?m (h @ x)"
    by (simp add: tail_rows_def)
  have len: "length (tail_rows (?k - 1) h) = length h - ?m"
    by (simp add: tail_rows_def)
  have "drop (length h - ?m) (mconv_full c (drop ?m (h @ x))) =
          drop (length h) (mconv_full c (h @ x))"
  proof (rule nth_equalityI)
    show "length (drop (length h - ?m) (mconv_full c (drop ?m (h @ x)))) =
            length (drop (length h) (mconv_full c (h @ x)))"
      by (simp add: length_mconv_full)
  next
    fix j assume "j < length (drop (length h - ?m) (mconv_full c (drop ?m (h @ x))))"
    then have j: "j < length x"
      by (simp add: length_mconv_full)
    have "window ?k (drop ?m (h @ x)) (length h + j - ?m) = window ?k (h @ x) (length h + j)"
      by (rule window_drop) auto
    moreover have "length h - ?m + j = length h + j - ?m"
      by simp
    ultimately show "drop (length h - ?m) (mconv_full c (drop ?m (h @ x))) ! j =
            drop (length h) (mconv_full c (h @ x)) ! j"
      using j by (simp add: length_mconv_full nth_mconv_full)
  qed
  then show ?thesis
    by (simp only: mconv_cached_def Let_def tail_rows_append len) (simp only: buf)
qed

section \<open>A residual layer in evaluation mode\<close>

lemma Conv2d_1x1_append: "Conv2d_1x1 w (a @ b) = Conv2d_1x1 w a @ Conv2d_1x1 w b"
  by (simp add: Conv2d_1x1_def)

lemma Conv2d_1x1_take: "take n (Conv2d_1x1 w x) = Conv2d_1x1 w (take n x)"
  by (simp add: Conv2d_1x1_def take_map)

lemma length_Conv2d_1x1: "length (Conv2d_1x1 w x) = length x"
  by (simp add: Conv2d_1x1_def)

lemma ResLayer_ffn_take:
  "\<not> training l \<Longrightarrow> take n (ResLayer_ffn l y r) = ResLayer_ffn l (take n y) (take n r)"
  by (simp add: ResLayer_ffn_def dropout_def grid_add_def grid_scale_def take_map take_zip Let_def)

lemma ResLayer_ffn_drop:
  "\<not> training l \<Longrightarrow> drop n (ResLayer_ffn l y r) = ResLayer_ffn l (drop n y) (drop n r)"
  by (simp add: ResLayer_ffn_def dropout_def grid_add_def grid_scale_def drop_map drop_zip Let_def)

lemma length_ResLayer_ffn:
  "\<not> training l \<Longrightarrow> length (ResLayer_ffn l y r) = min (length y) (length r)"
  by (simp add: ResLayer_ffn_def dropout_def grid_add_def grid_scale_def Let_def)

lemma length_layer_full: "\<not> training l \<Longrightarrow> length (layer_full l x) = length x"
  by (simp add: layer_full_def length_ResLayer_ffn length_mconv_full length_Conv2d_1x1)

lemma layer_full_take: "\<not> training l \<Longrightarrow> take n (layer_full l x) = layer_full l (take n x)"
  by (simp add: layer_full_def ResLayer_ffn_take mconv_full_take Conv2d_1x1_take)

lemma ResLayer_forward_full:
  "\<not> training l \<Longrightarrow>
     ResLayer_forward l n x encoder_mask decoder_mask None = (None, layer_full l x)"
  by (simp add: ResLayer_forward_def ResLayer_conv_def MaskedConvolution_forward_def
      mask_padding_def layer_full_def Let_def)

lemma ResLayer_forward_cached:
  assumes "\<not> training l"
    and "cache_of st n = tail_rows (mc_kernel_size (mconv2 l) - 1) (Conv2d_1x1 (conv1 l) h)"
  shows "ResLayer_forward l n x encoder_mask decoder_mask (Some st) =
     (Some (st(n \<mapsto> tail_rows (mc_kernel_size (mconv2 l) - 1) (Conv2d_1x1 (conv1 l) (h @ x)))),
      drop (length h) (layer_full l (h @ x)))"
  using assms
  by (simp add: ResLayer_forward_def ResLayer_conv_def MaskedConvolution_forward_def
      mask_padding_def layer_full_def Let_def mconv_cached_tail Conv2d_1x1_append
      ResLayer_ffn_drop length_Conv2d_1x1 del: One_nat_def)

section \<open>The stack of layers and the invariant of the caches\<close>

lemma blocks_forward_full:
  "list_all (\<lambda>l. \<not> training l) ls \<Longrightarrow>
     blocks_forward ls n x encoder_mask decoder_mask None = (None, blocks_full ls x)"
  by (induction ls arbitrary: n x) (simp_all add: ResLayer_forward_full)

lemma blocks_full_take:
  "list_all (\<lambda>l. \<not> training l) ls \<Longrightarrow> take k (blocks_full ls x) = blocks_full ls (take k x)"
  by (induction ls arbitrary: x) (simp_all add: layer_full_take)

lemma length_blocks_full:
  "list_all (\<lambda>l. \<not> training l) ls \<Longrightarrow> length (blocks_full ls x) = length x"
  by (induction ls arbitrary: x) (simp_all add: length_layer_full)

lemma cached_cong:
  "(\<And>m. n \<le> m \<Longrightarrow> st m = st' m) \<Longrightarrow> cached ls n h st = cached ls n h st'"
  by (induction ls arbitrary: n h) (simp_all add: cache_of_def)

lemma cached_empty:
  "list_all (\<lambda>l. \<not> training l) ls \<Longrightarrow> cached ls n [] Map.empty"
proof (induction ls arbitrary: n)
  case Nil
  then show ?case by simp
next
  case (Cons l ls)
  have "layer_full l [] = []"
    using Cons.prems length_layer_full [of l "[]"] by simp
  with Cons show ?case
    by (simp add: cache_of_def tail_rows_def Conv2d_1x1_def)
qed

lemma layer_full_append:
  assumes "\<not> training l"
  shows "layer_full l h @ drop (length h) (layer_full l (h @ x)) = layer_full l (h @ x)"
proof -
  have "take (length h) (layer_full l (h @ x)) = layer_full l h"
    using assms by (simp add: layer_full_take)
  then show ?thesis
    by (metis append_take_drop_id)
qed

lemma blocks_forward_cached:
  assumes "list_all (\<lambda>l. \<not> training l) ls" and "cached ls n h st"
  shows "\<exists>st'. blocks_forward ls n x encoder_mask decoder_mask (Some st) =
                 (Some st', drop (length h) (blocks_full ls (h @ x))) \<and>
               cached ls n (h @ x) st' \<and> (\<forall>m<n. st' m = st m)"
  using assms
proof (induction ls arbitrary: n h x st)
  case Nil
  then show ?case by simp
next
  case (Cons l ls)
  let ?k = "mc_kernel_size (mconv2 l) - 1"
  let ?st1 = "st(n \<mapsto> tail_rows ?k (Conv2d_1x1 (conv1 l) (h @ x)))"
  let ?y = "drop (length h) (layer_full l (h @ x))"
  from Cons.prems have ev: "\<not> training l" and evs: "list_all (\<lambda>l. \<not> training l) ls"
    and c0: "cache_of st n = tail_rows ?k (Conv2d_1x1 (conv1 l) h)"
    and cs: "cached ls (Suc n) (layer_full l h) st"
    by simp_all
  have step: "ResLayer_forward l n x encoder_mask decoder_mask (Some st) = (Some ?st1, ?y)"
    using ev c0 by (rule ResLayer_forward_cached)
  have "cached ls (Suc n) (layer_full l h) ?st1"
    using cs cached_cong [of "Suc n" st ?st1 ls "layer_full l h"] by simp
  from Cons.IH [OF evs this, of ?y] obtain st'
    where run: "blocks_forward ls (Suc n) ?y encoder_mask decoder_mask (Some ?st1) =
                  (Some st', drop (length (layer_full l h)) (blocks_full ls (layer_full l h @ ?y)))"
      and inv: "cached ls (Suc n) (layer_full l h @ ?y) st'"
      and frame: "\<forall>m<Suc n. st' m = ?st1 m"
    by blast
  have app: "layer_full l h @ ?y = layer_full l (h @ x)"
    using ev by (rule layer_full_append)
  have len: "length (layer_full l h) = length h"
    using ev by (rule length_layer_full)
  have "blocks_forward (l # ls) n x encoder_mask decoder_mask (Some st) =
          (Some st', drop (length h) (blocks_full (l # ls) (h @ x)))"
    using run by (simp add: step app len)
  moreover have "cached (l # ls) n (h @ x) st'"
    using inv frame by (simp add: app cache_of_def)
  moreover have "\<forall>m<n. st' m = st m"
    using frame by simp
  ultimately show ?case by blast
qed

section \<open>The forward pass in evaluation mode\<close>

lemma net_input_append: "net_input nt (a @ b) = net_input nt a @ net_input nt b"
  by (simp add: net_input_def split: option.splits)

lemma net_input_take: "take n (net_input nt x) = net_input nt (take n x)"
  by (simp add: net_input_def take_map split: option.splits)

lemma length_net_input: "length (net_input nt x) = length x"
  by (simp add: net_input_def split: option.splits)

lemma build_grid_take: "take n (build_grid s t) = build_grid s (take n t)"
  by (simp add: build_grid_def take_map)

lemma build_grid_append: "build_grid s (a @ b) = build_grid s a @ build_grid s b"
  by (simp add: build_grid_def)

lemma length_features:
  "eval_mode d \<Longrightarrow> length (features d src toks) = length toks"
  by (simp add: features_def eval_mode_def length_blocks_full length_net_input build_grid_def)

lemma features_take:
  "eval_mode d \<Longrightarrow> take n (features d src toks) = features d src (take n toks)"
  by (simp add: features_def eval_mode_def blocks_full_take net_input_take build_grid_take
      take_map)

lemma max_dim2_take: "max_dim2 x = Inr z \<Longrightarrow> max_dim2 (take n x) = Inr (take n z)"
  by (auto simp: max_dim2_def take_map split: if_splits dest: in_set_takeD)

lemma max_dim2_length: "max_dim2 x = Inr z \<Longrightarrow> length z = length x"
  by (auto simp: max_dim2_def split: if_splits)

lemma max_dim2_nth:
  "max_dim2 x = Inr z \<Longrightarrow> i < length x \<Longrightarrow> max_dim2 [x ! i] = Inr [z ! i]"
  by (auto simp: max_dim2_def split: if_splits dest: nth_mem)

lemma forward_eval_full:
  assumes "eval_mode d"
  shows "forward d toks enc m None (Some c) cd =
     (case max_dim2 (features d (slice_to c enc) toks) of
        Inl e \<Rightarrow> Inl e
      | Inr z \<Rightarrow> Inr (None, map (predict d) z))"
  using assms
  by (simp add: forward_def eval_mode_def dropout_def ResNet6_forward_def net_input_def
      features_def blocks_forward_full predict_def Let_def comp_def
      split: sum.splits option.splits)

lemma last_step_snoc: "last_step (xs @ [x]) = [x]"
  by (simp add: last_step_def)

lemma last_step_single: "length xs = 1 \<Longrightarrow> last_step xs = xs"
  by (simp add: last_step_def)

lemma features_snoc:
  assumes "eval_mode d"
  shows "drop (length pre) (features d src (pre @ [t])) = [features d src (pre @ [t]) ! length pre]"
proof -
  have "length (features d src (pre @ [t])) = Suc (length pre)"
    using assms by (simp add: length_features)
  then show ?thesis
    by (metis Cons_nth_drop_Suc drop_all lessI order_refl)
qed

lemma forward_eval_step:
  assumes ev: "eval_mode d"
    and inv: "cached (residual_blocks (net d)) 0
                (net_input (net d) (build_grid (slice_to c enc) (map snd pre))) st"
  shows "\<exists>st'. forward d (pre @ [t]) enc m (Some st) (Some c) True =
           (case max_dim2 [features d (slice_to c enc) (pre @ [t]) ! length pre] of
              Inl e \<Rightarrow> Inl e
            | Inr z \<Rightarrow> Inr (Some st', map (predict d) z)) \<and>
         cached (residual_blocks (net d)) 0
           (net_input (net d) (build_grid (slice_to c enc) (map snd (pre @ [t])))) st'"
proof -
  let ?src = "slice_to c enc"
  let ?h = "net_input (net d) (build_grid ?src (map snd pre))"
  let ?x = "net_input (net d) (build_grid ?src [snd t])"
  from ev have evs: "list_all (\<lambda>l. \<not> training l) (residual_blocks (net d))"
    and evd: "\<not> dec_training d"
    by (simp_all add: eval_mode_def)
  from blocks_forward_cached [OF evs inv, of ?x m "padding_mask [t]"] obtain st'
    where run: "blocks_forward (residual_blocks (net d)) 0 ?x m (padding_mask [t]) (Some st) =
                  (Some st', drop (length ?h) (blocks_full (residual_blocks (net d)) (?h @ ?x)))"
      and inv': "cached (residual_blocks (net d)) 0 (?h @ ?x) st'"
    by blast
  have hx: "?h @ ?x = net_input (net d) (build_grid ?src (map snd (pre @ [t])))"
    by (simp add: net_input_append [symmetric] build_grid_append [symmetric])
  have len: "length ?h = length pre"
    by (simp add: length_net_input build_grid_def)
  have out: "drop (length ?h) (blocks_full (residual_blocks (net d)) (?h @ ?x)) =
               [features d ?src (pre @ [t]) ! length pre]"
    unfolding hx len using features_snoc [OF ev, of pre ?src t] by (simp add: features_def)
  have net: "ResNet6_forward (net d) (build_grid ?src [snd t]) m (padding_mask [t]) (Some st) =
               (Some st', [features d ?src (pre @ [t]) ! length pre])"
    using run unfolding out by (simp add: ResNet6_forward_def net_input_def)
  have "forward d (pre @ [t]) enc m (Some st) (Some c) True =
           (case max_dim2 [features d ?src (pre @ [t]) ! length pre] of
              Inl e \<Rightarrow> Inl e
            | Inr z \<Rightarrow> Inr (Some st', map (predict d) z))"
    using evd
    by (simp add: forward_def last_step_snoc dropout_def net last_step_single predict_def
        Let_def comp_def split: sum.splits)
  with inv' hx show ?thesis by auto
qed

lemma decode_steps_eval:
  assumes ev: "eval_mode d"
    and inv: "cached (residual_blocks (net d)) 0
                (net_input (net d) (build_grid (slice_to c enc) (map snd pre))) st"
    and z: "max_dim2 (features d (slice_to c enc) (pre @ ts)) = Inr z"
  shows "decode_steps d pre ts enc m (Some st) (Some c) =
           Inr (map (\<lambda>r. [predict d r]) (drop (length pre) z))"
  using inv z
proof (induction ts arbitrary: pre st)
  case Nil
  have "length z = length pre"
    using max_dim2_length [OF Nil.prems(2)] ev by (simp add: length_features)
  then show ?case by simp
next
  case (Cons t ts)
  let ?src = "slice_to c enc"
  have lz: "length z = length pre + Suc (length ts)"
    using max_dim2_length [OF Cons.prems(2)] ev by (simp add: length_features)
  from forward_eval_step [OF ev Cons.prems(1), of t m] obtain st'
    where fw: "forward d (pre @ [t]) enc m (Some st) (Some c) True =
           (case max_dim2 [features d ?src (pre @ [t]) ! length pre] of
              Inl e \<Rightarrow> Inl e
            | Inr z \<Rightarrow> Inr (Some st', map (predict d) z))"
      and inv': "cached (residual_blocks (net d)) 0
           (net_input (net d) (build_grid ?src (map snd (pre @ [t])))) st'"
    by blast
  have "features d ?src (pre @ [t]) = take (Suc (length pre)) (features d ?src (pre @ t # ts))"
    using ev by (simp add: features_take)
  then have "features d ?src (pre @ [t]) ! length pre = features d ?src (pre @ t # ts) ! length pre"
    by simp
  moreover have "max_dim2 [features d ?src (pre @ t # ts) ! length pre] = Inr [z ! length pre]"
    using Cons.prems(2) ev by (intro max_dim2_nth) (simp_all add: length_features)
  ultimately have step: "forward d (pre @ [t]) enc m (Some st) (Some c) True =
      Inr (Some st', [predict d (z ! length pre)])"
    by (simp add: fw)
  have "decode_steps d (pre @ [t]) ts enc m (Some st') (Some c) =
          Inr (map (\<lambda>r. [predict d r]) (drop (length (pre @ [t])) z))"
    using Cons.prems(2) by (intro Cons.IH [OF inv']) simp
  moreover have "drop (length pre) z = z ! length pre # drop (Suc (length pre)) z"
    using lz by (simp add: Cons_nth_drop_Suc)
  ultimately show ?case
    by (simp add: step)
qed

lemma forward_full_cases:
  assumes "eval_mode d" and "forward d toks enc m None context_size cd = Inr (st, out)"
  obtains c z where "context_size = Some c"
    and "max_dim2 (features d (slice_to c enc) toks) = Inr z"
    and "st = None" and "out = map (predict d) z"
proof (cases context_size)
  case None
  with assms(2) show ?thesis by (simp add: forward_def)
next
  case (Some c)
  with assms show ?thesis
    by (auto simp: forward_eval_full split: sum.splits intro: that)
qed

lemma forward_take:
  assumes "eval_mode d" and "forward d toks enc m None context_size cd = Inr (st, out)"
  shows "forward d (take n toks) enc m None context_size cd = Inr (st, take n out)"
proof -
  from assms obtain c z where c: "context_size = Some c"
    and z: "max_dim2 (features d (slice_to c enc) toks) = Inr z"
    and st: "st = None" and out: "out = map (predict d) z"
    by (rule forward_full_cases)
  have "max_dim2 (features d (slice_to c enc) (take n toks)) = Inr (take n z)"
    using max_dim2_take [OF z, of n] assms(1) by (simp add: features_take)
  then show ?thesis
    using assms(1) by (simp add: c forward_eval_full st out take_map)
qed

section \<open>Causality of the forward pass\<close>

text \<open>
  C2.  In evaluation mode the full-sequence forward pass is causal along the target axis.
  If the pass over the target tokens returns \<open>out\<close>, then for every \<open>n > 0\<close> the pass over
  the first \<open>n\<close> tokens returns the first \<open>n\<close> rows of \<open>out\<close>: the output at a target
  position is the same whether it is computed from the grid that ends there or taken from
  a longer grid.  In particular two runs whose target tokens agree on the first \<open>n\<close>
  positions agree on the first \<open>n\<close> outputs, whatever the later tokens are.
\<close>

theorem forward_causal:
  assumes "eval_mode d" and "0 < n"
    and "forward d toks enc m None context_size cd = Inr (st, out)"
  shows "forward d (take n toks) enc m None context_size cd = Inr (st, take n out) \<and>
         (\<forall>toks' st' out'. take n toks' = take n toks \<and>
              forward d toks' enc m None context_size cd = Inr (st', out') \<longrightarrow>
              take n out' = take n out)"
proof -
  have a: "forward d (take n toks) enc m None context_size cd = Inr (st, take n out)"
    using assms(1,3) by (rule forward_take)
  have "take n out' = take n out"
    if "take n toks' = take n toks"
      and "forward d toks' enc m None context_size cd = Inr (st', out')" for toks' st' out'
    using forward_take [OF assms(1) that(2), of n] a that(1) by simp
  with a show ?thesis by blast
qed

theorem forward_causal_witness:
  "eval_mode (ex_decoder False) \<and> (0 :: nat) < 1 \<and>
   forward (ex_decoder False) [(False, [1]), (False, [2])] [[1], [3]] None None (Some 2) True =
     Inr (None, [[12, 4], [18, 10]]) \<and>
   forward (ex_decoder False) (take 1 [(False, [1]), (False, [2])]) [[1], [3]] None None
       (Some 2) True = Inr (None, take 1 [[12, 4], [18, 10]]) \<and>
   take 1 [(False, [1]), (False, [5 :: real])] = take 1 [(False, [1]), (False, [2])] \<and>
   forward (ex_decoder False) [(False, [1]), (False, [5])] [[1], [3]] None None (Some 2) True =
     Inr (None, [[12, 4], [18, 22]]) \<and>
   take 1 [[12, 4], [18, 22 :: real]] = take 1 [[12, 4], [18, 10]]"
proof -
  have ev: "eval_mode (ex_decoder False)"
    by (simp add: eval_mode_def ex_decoder_def ex_layer_def)
  have pos: "(0 :: nat) < 1"
    by simp
  have full: "forward (ex_decoder False) [(False, [1]), (False, [2])] [[1], [3]] None None
      (Some 2) True = Inr (None, [[12, 4], [18, 10]])"
    by (simp add: ex_defs Let_def)
  have full': "forward (ex_decoder False) [(False, [1]), (False, [5])] [[1], [3]] None None
      (Some 2) True = Inr (None, [[12, 4], [18, 22]])"
    by (simp add: ex_defs Let_def)
  have t: "take 1 [(False, [1]), (False, [5 :: real])] = take 1 [(False, [1]), (False, [2])]"
    by simp
  note c = forward_causal [OF ev pos full]
  have p1: "forward (ex_decoder False) (take 1 [(False, [1]), (False, [2])]) [[1], [3]] None
      None (Some 2) True = Inr (None, take 1 [[12, 4], [18, 10]])"
    using c by blast
  have p2: "take 1 [[12, 4], [18, 22 :: real]] = take 1 [[12, 4], [18, 10]]"
    using c t full' by blast
  show ?thesis
    using ev pos full p1 t full' p2 by blast
qed

section \<open>Incremental decoding against the full forward pass\<close>

text \<open>
  C1.  In evaluation mode, if the full-sequence forward pass without a cache returns for
  the target tokens, then the decoding session that calls the decoder once per token with
  its cache, starting from the empty state, returns too, with one output per token; and
  the output of step \<open>k\<close> is the last row of the non-cached forward pass over the first
  \<open>k + 1\<close> target tokens.  The outputs are equal, not only close: real arithmetic has no
  rounding.
\<close>

theorem incremental_equals_full:
  assumes "eval_mode d"
    and "forward d toks enc m None (Some c) cd = Inr (st, out)"
  shows "\<exists>outs. decode_steps d [] toks enc m (Some Map.empty) (Some c) = Inr outs \<and>
           length outs = length toks \<and>
           (\<forall>k<length toks. \<exists>fk.
              forward d (take (Suc k) toks) enc m None (Some c) cd = Inr (None, fk) \<and>
              fk \<noteq> [] \<and> outs ! k = [last fk])"
proof -
  from assms obtain z where z: "max_dim2 (features d (slice_to c enc) toks) = Inr z"
    and st: "st = None" and out: "out = map (predict d) z"
    by (auto elim: forward_full_cases)
  have lz: "length z = length toks"
    using max_dim2_length [OF z] assms(1) by (simp add: length_features)
  have "cached (residual_blocks (net d)) 0
          (net_input (net d) (build_grid (slice_to c enc) (map snd []))) Map.empty"
    using assms(1) cached_empty [of "residual_blocks (net d)" 0]
    by (simp add: eval_mode_def build_grid_def net_input_def split: option.splits)
  from decode_steps_eval [OF assms(1) this, of toks z m] z
  have run: "decode_steps d [] toks enc m (Some Map.empty) (Some c) =
               Inr (map (\<lambda>r. [predict d r]) z)"
    by simp
  have "\<exists>fk. forward d (take (Suc k) toks) enc m None (Some c) cd = Inr (None, fk) \<and>
              fk \<noteq> [] \<and> map (\<lambda>r. [predict d r]) z ! k = [last fk]"
    if k: "k < length toks" for k
  proof -
    have "forward d (take (Suc k) toks) enc m None (Some c) cd =
            Inr (None, take (Suc k) (map (predict d) z))"
      using forward_take [OF assms, of "Suc k"] by (simp add: st out)
    moreover have "take (Suc k) (map (predict d) z) \<noteq> []"
      using k lz by auto
    moreover have "last (take (Suc k) (map (predict d) z)) = predict d (z ! k)"
      using k lz by (simp add: take_Suc_conv_app_nth take_map)
    ultimately show ?thesis
      using k lz by auto
  qed
  with run lz show ?thesis by auto
qed

theorem incremental_equals_full_witness:
  "eval_mode (ex_decoder False) \<and>
   forward (ex_decoder False) [(False, [1]), (False, [2])] [[1], [3]] None None (Some 2) True =
     Inr (None, [[12, 4], [18, 10]]) \<and>
   decode_steps (ex_decoder False) [] [(False, [1]), (False, [2])] [[1], [3]] None
       (Some Map.empty) (Some 2) = Inr [[[12, 4]], [[18, 10]]]"
proof -
  have ev: "eval_mode (ex_decoder False)"
    by (simp add: eval_mode_def ex_decoder_def ex_layer_def)
  have full: "forward (ex_decoder False) [(False, [1]), (False, [2])] [[1], [3]] None None
      (Some 2) True = Inr (None, [[12, 4], [18, 10]])"
    by (simp add: ex_defs Let_def)
  have f0: "forward (ex_decoder False) (take (Suc 0) [(False, [1]), (False, [2])]) [[1], [3]]
      None None (Some 2) True = Inr (None, [[12, 4]])"
    by (simp add: ex_defs Let_def)
  have f1: "forward (ex_decoder False) (take (Suc 1) [(False, [1]), (False, [2])]) [[1], [3]]
      None None (Some 2) True = Inr (None, [[12, 4], [18, 10]])"
    by (simp add: ex_defs Let_def)
  from incremental_equals_full [OF ev full] obtain outs
    where run: "decode_steps (ex_decoder False) [] [(False, [1]), (False, [2])] [[1], [3]] None
        (Some Map.empty) (Some 2) = Inr outs"
      and len: "length outs = length [(False, [1 :: real]), (False, [2])]"
      and steps: "\<forall>k<length [(False, [1 :: real]), (False, [2])]. \<exists>fk.
          forward (ex_decoder False) (take (Suc k) [(False, [1]), (False, [2])]) [[1], [3]]
            None None (Some 2) True = Inr (None, fk) \<and> fk \<noteq> [] \<and> outs ! k = [last fk]"
    by blast
  have o0: "outs ! 0 = [[12, 4]]"
    using steps [rule_format, of 0] by (simp only: f0) simp
  have o1: "outs ! 1 = [[18, 10]]"
    using steps [rule_format, of 1] by (simp only: f1) simp
  have "outs = [[[12, 4]], [[18, 10]]]"
    using len o0 o1 by (auto simp: list_eq_iff_nth_eq less_Suc_eq numeral_2_eq_2)
  with ev full run show ?thesis by simp
qed

end
